theory Spec2Isabelle
  imports Complex_Main "HOL-Library.Sublist"
begin

section \<open>JavaScript strings\<close>

text \<open>
  A JavaScript string is a sequence of UTF-16 code units. The bullet glyph (U+2022), the
  dashes (U+2013, U+2014) and the pound sign (U+00A3) of \<^verbatim>\<open>server.js\<close> lie outside
  Latin-1, so a code unit is a natural number and a string a list of them. \<open>str\<close> embeds
  an ASCII literal.
\<close>

type_synonym jsstring = "nat list"

definition str :: "string \<Rightarrow> jsstring" where
  "str s = map of_char s"

text \<open>
  The class \<^verbatim>\<open>\s\<close> of a JavaScript regular expression, which is also what
  \<^verbatim>\<open>String.prototype.trim\<close> removes: tab, LF, VT, FF, CR, space, NBSP, U+1680,
  U+2000..U+200A, U+2028, U+2029, U+202F, U+205F, U+3000 and U+FEFF.
\<close>

definition is_ws :: "nat \<Rightarrow> bool" where
  "is_ws c = (c \<in> {9, 10, 11, 12, 13, 32, 160, 5760, 8232, 8233, 8239, 8287, 12288, 65279}
     \<or> (8192 \<le> c \<and> c \<le> 8202))"

text \<open>The line terminators, which \<^verbatim>\<open>.\<close> does not match: LF, CR, U+2028, U+2029.\<close>

definition is_lt :: "nat \<Rightarrow> bool" where
  "is_lt c = (c \<in> {10, 13, 8232, 8233})"

text \<open>\<^verbatim>\<open>s.trim()\<close>\<close>

definition trim_end :: "jsstring \<Rightarrow> jsstring" where
  "trim_end s = rev (dropWhile is_ws (rev s))"

definition trim :: "jsstring \<Rightarrow> jsstring" where
  "trim s = trim_end (dropWhile is_ws s)"

text \<open>\<^verbatim>\<open>t.startsWith(p)\<close>\<close>

definition startsWith :: "jsstring \<Rightarrow> jsstring \<Rightarrow> bool" where
  "startsWith t p = (take (length p) t = p)"

text \<open>\<^verbatim>\<open>rows.join(" ")\<close>\<close>

fun join_sp :: "jsstring list \<Rightarrow> jsstring" where
  "join_sp [] = []"
| "join_sp [r] = r"
| "join_sp (r # r' # rs) = r @ [32] @ join_sp (r' # rs)"

text \<open>
  \<^verbatim>\<open>txt.split(/\s+/)\<close>: the pieces between the maximal runs of whitespace. A run at the
  start or at the end of the string leaves an empty piece there, and the empty string
  splits into one empty piece.
\<close>

function split_ws_from :: "jsstring \<Rightarrow> jsstring \<Rightarrow> jsstring list" where
  "split_ws_from [] cur = [cur]"
| "split_ws_from (c # cs) cur =
     (if is_ws c then cur # split_ws_from (dropWhile is_ws cs) []
      else split_ws_from cs (cur @ [c]))"
  by pat_completeness auto
termination
  by (relation "measure (\<lambda>(cs, cur). length cs)")
     (auto simp: less_Suc_eq_le length_dropWhile_le)

definition split_ws :: "jsstring \<Rightarrow> jsstring list" where
  "split_ws txt = split_ws_from txt []"

text \<open>
  The wording of the specification for the whitespace-separated tokens of a line: the
  pieces between the runs of whitespace that are not empty.
\<close>

definition spec_tokens :: "jsstring \<Rightarrow> jsstring list" where
  "spec_tokens txt = filter (\<lambda>w. w \<noteq> []) (split_ws txt)"

section \<open>The word-wrap engine\<close>

datatype font = Helvetica | HelveticaBold

text \<open>
  \<^verbatim>\<open>font.widthOfTextAtSize(text, size)\<close> belongs to the PDF library; it is a parameter
  of the model.
\<close>

type_synonym measure_fn = "font \<Rightarrow> jsstring \<Rightarrow> rat \<Rightarrow> rat"

text \<open>
  \<^verbatim>\<open>wrap\<close>. The state of its \<^verbatim>\<open>for (const w of words)\<close> loop is the pair of
  \<^verbatim>\<open>cur\<close> and \<^verbatim>\<open>rows\<close>; \<open>wrap_step\<close> is the loop body and \<open>wrap_loop\<close> runs it
  over the words and ends with \<^verbatim>\<open>rows.push(cur || "")\<close>. A string is truthy when it
  is not empty.
\<close>

definition wrap_step :: "(jsstring \<Rightarrow> rat) \<Rightarrow> rat \<Rightarrow> jsstring \<times> jsstring list \<Rightarrow> jsstring
    \<Rightarrow> jsstring \<times> jsstring list" where
  "wrap_step wd maxWidth st w =
     (let cur = fst st; rows = snd st;
          test = (if cur \<noteq> [] then cur @ [32] @ w else w) in
      if wd test > maxWidth \<and> cur \<noteq> [] then (w, rows @ [cur])
      else (test, rows))"

fun wrap_loop :: "(jsstring \<Rightarrow> rat) \<Rightarrow> rat \<Rightarrow> jsstring list \<Rightarrow> jsstring \<times> jsstring list
    \<Rightarrow> jsstring list" where
  "wrap_loop wd maxWidth [] st = snd st @ [fst st]"
| "wrap_loop wd maxWidth (w # ws) st = wrap_loop wd maxWidth ws (wrap_step wd maxWidth st w)"

definition wrap :: "measure_fn \<Rightarrow> jsstring \<Rightarrow> rat \<Rightarrow> rat \<Rightarrow> rat \<Rightarrow> font \<Rightarrow> jsstring list" where
  "wrap widthOfTextAtSize txt x maxWidth sz fnt =
     wrap_loop (\<lambda>s. widthOfTextAtSize fnt s sz) maxWidth (split_ws txt) ([], [])"


section \<open>JavaScript numbers\<close>

text \<open>
  A JavaScript number is an IEEE 754 double. A finite double is modelled by the rational it
  denotes, and every arithmetic operation of the code rounds its exact result to the
  nearest double, ties to even: \<open>fl\<close>. The rounding is that of the normal range (a
  significand of 53 bits and no bound on the exponent), which covers the page
  coordinates and counts of this program.
\<close>

fun bit_length :: "nat \<Rightarrow> nat" where
  "bit_length n = (if n = 0 then 0 else Suc (bit_length (n div 2)))"

declare bit_length.simps [simp del]

text \<open>The exponent \<open>e\<close> of a positive value \<open>a\<close>: \<open>2 ^ e \<le> a < 2 ^ (e + 1)\<close>.\<close>

definition exponent :: "rat \<Rightarrow> int" where
  "exponent a =
     (if 1 \<le> a then int (bit_length (nat \<lfloor>a\<rfloor>)) - 1
      else - int (bit_length (nat (\<lceil>1 / a\<rceil> - 1))))"

definition pow2 :: "int \<Rightarrow> rat" where
  "pow2 e = (if 0 \<le> e then 2 ^ nat e else 1 / 2 ^ nat (- e))"

text \<open>The nearest integer, the even one of two that are equally near.\<close>

definition round_even :: "rat \<Rightarrow> int" where
  "round_even v =
     (let f = \<lfloor>v\<rfloor>; d = v - of_int f in
      if d < 1 / 2 then f else if 1 / 2 < d then f + 1 else if even f then f else f + 1)"

definition fl :: "rat \<Rightarrow> rat" where
  "fl v =
     (if v = 0 then 0
      else (let u = pow2 (exponent \<bar>v\<bar> - 52) in of_int (round_even (v / u)) * u))"

text \<open>\<^verbatim>\<open>a + b\<close>, \<^verbatim>\<open>a - b\<close> and \<^verbatim>\<open>a * b\<close> on doubles.\<close>

definition fadd :: "rat \<Rightarrow> rat \<Rightarrow> rat" where
  "fadd a b = fl (a + b)"

definition fsub :: "rat \<Rightarrow> rat \<Rightarrow> rat" where
  "fsub a b = fl (a - b)"

definition fmul :: "rat \<Rightarrow> rat \<Rightarrow> rat" where
  "fmul a b = fl (a * b)"

text \<open>
  A measurement used for concrete runs: every code unit is half the font size wide (an
  exact double for the lengths and sizes used).
\<close>

definition half_em :: measure_fn where
  "half_em fnt s sz = of_nat (length s) * sz / 2"

section \<open>The text sanitizer\<close>

text \<open>
  \<^verbatim>\<open>sanitizeForPdf\<close> deletes every code unit outside
  \<^verbatim>\<open>[\x09\x0A\x0D\x20-\x7E]\<close>, the pound sign, the en dash and the em dash, and
  trims the result.
\<close>

definition pdf_safe :: "nat \<Rightarrow> bool" where
  "pdf_safe c = (c = 9 \<or> c = 10 \<or> c = 13 \<or> (32 \<le> c \<and> c \<le> 126)
     \<or> c = 163 \<or> c = 8211 \<or> c = 8212)"

definition sanitizeForPdf :: "jsstring \<Rightarrow> jsstring" where
  "sanitizeForPdf txt = trim (filter pdf_safe txt)"

section \<open>The fixed-layout renderer\<close>

text \<open>
  One call of \<^verbatim>\<open>page.drawText(txt, {x, y, size, font})\<close>.
\<close>

record draw_op =
  op_text :: jsstring
  op_x :: rat
  op_y :: rat
  op_size :: rat
  op_font :: font

text \<open>
  The mutable variables of \<^verbatim>\<open>buildPdfBufferStructured\<close>: the pages of the document
  before the current one, the current \<^verbatim>\<open>page\<close> (the operations drawn on it so far),
  \<^verbatim>\<open>width\<close>, \<^verbatim>\<open>height\<close> and the cursor \<^verbatim>\<open>y\<close>.
\<close>

record pdf_state =
  earlier :: "draw_op list list"
  page :: "draw_op list"
  st_width :: rat
  st_height :: rat
  st_y :: rat

text \<open>
  What the PDF library supplies: the size of a page made by \<^verbatim>\<open>pdfDoc.addPage()\<close>
  and the width of a text in a font.
\<close>

record pdflib =
  page_width :: rat
  page_height :: rat
  widthOfTextAtSize :: measure_fn

definition fsTitle :: rat where "fsTitle = 16"
definition fsBody :: rat where "fsBody = 11"
definition margin :: rat where "margin = 50"
text \<open>The literal \<^verbatim>\<open>1.4\<close> and \<^verbatim>\<open>lh = fsBody * 1.4\<close>.\<close>

definition d1_4 :: rat where "d1_4 = fl (14 / 10)"
definition lh :: rat where "lh = fmul fsBody d1_4"

definition draw :: "jsstring \<Rightarrow> rat \<Rightarrow> rat \<Rightarrow> rat \<Rightarrow> font \<Rightarrow> pdf_state \<Rightarrow> pdf_state" where
  "draw txt x y sz fnt st =
     st\<lparr>page := page st @ [\<lparr>op_text = txt, op_x = x, op_y = y, op_size = sz, op_font = fnt\<rparr>]\<rparr>"

definition ensure :: "pdflib \<Rightarrow> rat \<Rightarrow> pdf_state \<Rightarrow> pdf_state" where
  "ensure lib need st =
     (if fsub (st_y st) need < margin
      then st\<lparr>earlier := earlier st @ [page st], page := [],
              st_width := page_width lib, st_height := page_height lib,
              st_y := fsub (page_height lib) margin\<rparr>
      else st)"

text \<open>The body of the loop of \<^verbatim>\<open>para\<close>: ensure, draw, move the cursor down.\<close>

definition para_row :: "pdflib \<Rightarrow> rat \<Rightarrow> rat \<Rightarrow> font \<Rightarrow> pdf_state \<Rightarrow> jsstring \<Rightarrow> pdf_state" where
  "para_row lib x sz fnt st r =
     (let st1 = ensure lib lh st;
          st2 = draw r x (st_y st1) sz fnt st1
      in st2\<lparr>st_y := fsub (st_y st2) lh\<rparr>)"

definition para :: "pdflib \<Rightarrow> jsstring \<Rightarrow> rat \<Rightarrow> rat \<Rightarrow> font \<Rightarrow> pdf_state \<Rightarrow> pdf_state" where
  "para lib txt x sz fnt st =
     (let safe = sanitizeForPdf txt;
          rows = wrap (widthOfTextAtSize lib) safe x (fsub (fsub (st_width st) x) margin) sz fnt
      in foldl (para_row lib x sz fnt) st rows)"

text \<open>All pages of the document, in order, the current one last.\<close>

definition pages :: "pdf_state \<Rightarrow> draw_op list list" where
  "pages st = earlier st @ [page st]"

text \<open>
  \<^verbatim>\<open>buildPdfBufferStructured\<close> up to \<^verbatim>\<open>pdfDoc.save()\<close>: the state after the title,
  the two metadata lines, the question and the report. \<^verbatim>\<open>fullName\<close> is the request's
  \<^verbatim>\<open>email\<close> field, which may be absent.
\<close>

definition pdf_initial :: "pdflib \<Rightarrow> pdf_state" where
  "pdf_initial lib =
     \<lparr>earlier = [], page = [], st_width = page_width lib, st_height = page_height lib,
      st_y = fsub (page_height lib) margin\<rparr>"

definition or_default :: "jsstring option \<Rightarrow> jsstring \<Rightarrow> jsstring" where
  "or_default v d = (case v of None \<Rightarrow> d | Some s \<Rightarrow> if s = [] then d else s)"

definition pdf_header :: "pdflib \<Rightarrow> jsstring option \<Rightarrow> jsstring \<Rightarrow> pdf_state" where
  "pdf_header lib fullName ts =
     (let st0 = pdf_initial lib;
          st1 = draw (str ''ECM Assistant Report'') margin (st_y st0) fsTitle HelveticaBold st0;
          st2 = st1\<lparr>st_y := fsub (st_y st1) (fmul fsTitle d1_4)\<rparr>;
          st3 = para lib (str ''Prepared for: '' @ or_default fullName (str ''N/A''))
                  margin fsBody Helvetica st2;
          st4 = para lib (str ''Timestamp (UK): '' @ ts) margin fsBody Helvetica st3
      in st4\<lparr>st_y := fsub (st_y st4) lh\<rparr>)"

definition buildPdfBufferStructured ::
    "pdflib \<Rightarrow> jsstring option \<Rightarrow> jsstring \<Rightarrow> jsstring \<Rightarrow> jsstring \<Rightarrow> pdf_state" where
  "buildPdfBufferStructured lib fullName ts question reportText =
     (let st5 = pdf_header lib fullName ts;
          st6 = para lib question margin fsBody Helvetica st5
      in para lib reportText margin fsBody Helvetica st6)"

text \<open>The texts drawn, page after page, in the order of drawing.\<close>

definition drawn :: "pdf_state \<Rightarrow> jsstring list" where
  "drawn st = map op_text (concat (pages st))"


text \<open>A small page measured with \<open>half_em\<close>, on which a few rows already fill a page.\<close>

definition small_page :: pdflib where
  "small_page = \<lparr>page_width = 200, page_height = 177, widthOfTextAtSize = half_em\<rparr>"

section \<open>The layout rule of the specification\<close>

text \<open>
  The wording of the specification (4.4) for the placing of content, as a function of its
  own: the cursor is a page number and a height. A row needs one line height; if the
  cursor minus that is below the bottom margin, the row goes to the next page with the
  cursor reset to the top margin, else it stays; after the row the cursor moves down one
  line height. A gap only moves the cursor. The result lists every row with the number of
  its page and its drawing operation.
\<close>

datatype item = Row jsstring | Gap rat

fun spec_place :: "pdflib \<Rightarrow> rat \<Rightarrow> rat \<Rightarrow> font \<Rightarrow> nat \<Rightarrow> rat \<Rightarrow> item list
    \<Rightarrow> (nat \<times> draw_op) list" where
  "spec_place lib x sz fnt p y [] = []"
| "spec_place lib x sz fnt p y (Gap d # items) = spec_place lib x sz fnt p (fsub y d) items"
| "spec_place lib x sz fnt p y (Row r # items) =
     (if fsub y lh < margin
      then (Suc p, \<lparr>op_text = r, op_x = x, op_y = fsub (page_height lib) margin, op_size = sz,
                    op_font = fnt\<rparr>)
           # spec_place lib x sz fnt (Suc p) (fsub (fsub (page_height lib) margin) lh) items
      else (p, \<lparr>op_text = r, op_x = x, op_y = y, op_size = sz, op_font = fnt\<rparr>)
           # spec_place lib x sz fnt p (fsub y lh) items)"

text \<open>The cursor after the items.\<close>

fun spec_cursor :: "pdflib \<Rightarrow> nat \<Rightarrow> rat \<Rightarrow> item list \<Rightarrow> nat \<times> rat" where
  "spec_cursor lib p y [] = (p, y)"
| "spec_cursor lib p y (Gap d # items) = spec_cursor lib p (fsub y d) items"
| "spec_cursor lib p y (Row r # items) =
     (if fsub y lh < margin
      then spec_cursor lib (Suc p) (fsub (fsub (page_height lib) margin) lh) items
      else spec_cursor lib p (fsub y lh) items)"

text \<open>
  What a document shows of the placing: every drawing operation with the number of its
  page, in the order of the pages.
\<close>

fun numbered :: "nat \<Rightarrow> draw_op list list \<Rightarrow> (nat \<times> draw_op) list" where
  "numbered p [] = []"
| "numbered p (ops # rest) = map (Pair p) ops @ numbered (Suc p) rest"

definition placements :: "pdf_state \<Rightarrow> (nat \<times> draw_op) list" where
  "placements st = numbered 0 (pages st)"

text \<open>
  A state \<open>st'\<close> continues a state \<open>st\<close> by the items when it shows the placements of
  \<open>st\<close> followed by those the layout rule gives for the items from the cursor of \<open>st\<close>,
  and its own cursor is the one the rule ends with.
\<close>

definition continues :: "pdflib \<Rightarrow> rat \<Rightarrow> rat \<Rightarrow> font \<Rightarrow> pdf_state \<Rightarrow> item list \<Rightarrow> pdf_state \<Rightarrow> bool" where
  "continues lib x sz fnt st items st' =
     (placements st' = placements st @ spec_place lib x sz fnt (length (earlier st)) (st_y st) items
      \<and> (length (earlier st'), st_y st') = spec_cursor lib (length (earlier st)) (st_y st) items)"

text \<open>
  The content of the document after its title, in the order of the specification: the
  space under the title, the rows of the "prepared for" line and of the timestamp line, a
  gap of one line, the rows of the question and the rows of the report, each text
  sanitized and wrapped once to the printable width.
\<close>

definition printable_width :: "pdflib \<Rightarrow> rat" where
  "printable_width lib = fsub (fsub (page_width lib) margin) margin"

definition rows_of :: "pdflib \<Rightarrow> jsstring \<Rightarrow> jsstring list" where
  "rows_of lib t =
     wrap (widthOfTextAtSize lib) (sanitizeForPdf t) margin (printable_width lib) fsBody Helvetica"

definition spec_content ::
    "pdflib \<Rightarrow> jsstring option \<Rightarrow> jsstring \<Rightarrow> jsstring \<Rightarrow> jsstring \<Rightarrow> item list" where
  "spec_content lib fullName ts question reportText =
     Gap (fmul fsTitle d1_4)
     # map Row (rows_of lib (str ''Prepared for: '' @ or_default fullName (str ''N/A'')))
     @ map Row (rows_of lib (str ''Timestamp (UK): '' @ ts))
     @ Gap lh
     # map Row (rows_of lib question)
     @ map Row (rows_of lib reportText)"

definition title_op :: "pdflib \<Rightarrow> draw_op" where
  "title_op lib =
     \<lparr>op_text = str ''ECM Assistant Report'', op_x = margin,
      op_y = fsub (page_height lib) margin, op_size = fsTitle, op_font = HelveticaBold\<rparr>"

section \<open>The line classifier\<close>

text \<open>The character classes of the handler's regular expressions.\<close>

definition is_digit :: "nat \<Rightarrow> bool" where
  "is_digit c = (48 \<le> c \<and> c \<le> 57)"

definition is_upper :: "nat \<Rightarrow> bool" where
  "is_upper c = (65 \<le> c \<and> c \<le> 90)"

text \<open>\<^verbatim>\<open>[\).\s]\<close>: a closing parenthesis, a full stop or whitespace.\<close>

definition is_delim :: "nat \<Rightarrow> bool" where
  "is_delim c = (c = 41 \<or> c = 46 \<or> is_ws c)"

text \<open>\<^verbatim>\<open>[-\<bullet>]\<close> with the bullet U+2022: a hyphen or a bullet.\<close>

definition is_glyph :: "nat \<Rightarrow> bool" where
  "is_glyph c = (c = 45 \<or> c = 8226)"

text \<open>\<^verbatim>\<open>/^\d+[\).\s]/.test(t)\<close>\<close>

definition re_heading :: "jsstring \<Rightarrow> bool" where
  "re_heading t =
     (t \<noteq> [] \<and> is_digit (hd t)
      \<and> (case dropWhile is_digit t of [] \<Rightarrow> False | c # rest \<Rightarrow> is_delim c))"

text \<open>\<^verbatim>\<open>/^[A-Z][\).\s]/.test(t)\<close>\<close>

fun re_subheading :: "jsstring \<Rightarrow> bool" where
  "re_subheading (a # b # rest) = (is_upper a \<and> is_delim b)"
| "re_subheading t = False"

text \<open>\<^verbatim>\<open>t.replace(/^[A-Z][\).\s]+/, "")\<close>\<close>

definition strip_letter :: "jsstring \<Rightarrow> jsstring" where
  "strip_letter t = (if re_subheading t then dropWhile is_delim (tl t) else t)"

text \<open>
  \<^verbatim>\<open>/^[-\<bullet>]?\s*[A-Z].*:\s*$/.test(t)\<close>: after an optional glyph and whitespace comes a
  capital letter; the rest, without the whitespace at its end, ends in a colon, and before
  that colon there is no line terminator (which \<^verbatim>\<open>.\<close> does not match).
\<close>

definition re_label :: "jsstring \<Rightarrow> bool" where
  "re_label t =
     (let s = dropWhile is_ws (if t \<noteq> [] \<and> is_glyph (hd t) then tl t else t) in
      s \<noteq> [] \<and> is_upper (hd s)
      \<and> (let r = trim_end (tl s) in
           r \<noteq> [] \<and> last r = 58 \<and> list_all (\<lambda>c. \<not> is_lt c) (butlast r)))"

text \<open>\<^verbatim>\<open>/^[-\<bullet>]/.test(t)\<close>\<close>

definition re_bullet :: "jsstring \<Rightarrow> bool" where
  "re_bullet t = (t \<noteq> [] \<and> is_glyph (hd t))"

text \<open>\<^verbatim>\<open>t.replace(/^[-\<bullet>]\s*/, rep)\<close>\<close>

definition replace_glyph :: "jsstring \<Rightarrow> jsstring \<Rightarrow> jsstring" where
  "replace_glyph t rep = (if re_bullet t then rep @ dropWhile is_ws (tl t) else t)"

datatype role = Heading | SubHeading | Label | Bullet | Body

text \<open>
  The chain of tests in the loop of the \<^verbatim>\<open>/ask\<close> handler, for a trimmed line that is
  neither empty nor the start of the footer: the role of the line and the text of its
  paragraph.
\<close>

definition classify :: "jsstring \<Rightarrow> role \<times> jsstring" where
  "classify t =
     (if re_heading t then (Heading, t)
      else if re_subheading t then (SubHeading, trim (strip_letter t))
      else if re_label t then (Label, trim (replace_glyph t []))
      else if re_bullet t then (Bullet, trim (replace_glyph t [8226, 32]))
      else (Body, t))"

section \<open>The flowable renderer\<close>

text \<open>\<^verbatim>\<open>TextRun\<close> and \<^verbatim>\<open>Paragraph\<close> of the docx library, with the options used.\<close>

record textrun =
  tr_text :: jsstring
  tr_bold :: bool
  tr_italics :: bool
  tr_size :: nat

datatype alignment = Center | Left

record paragraph_options =
  children :: "textrun list"
  alignment :: "alignment option"
  spacing_before :: "nat option"
  spacing_after :: "nat option"
  indent :: "(nat \<times> nat) option"

datatype docx_paragraph = ParagraphText jsstring | Paragraph paragraph_options

text \<open>The paragraph pushed for each role.\<close>

fun block :: "role \<Rightarrow> jsstring \<Rightarrow> docx_paragraph" where
  "block Heading txt = Paragraph
     \<lparr>children = [\<lparr>tr_text = txt, tr_bold = True, tr_italics = False, tr_size = 28\<rparr>],
      alignment = None, spacing_before = Some 200, spacing_after = Some 120, indent = None\<rparr>"
| "block SubHeading txt = Paragraph
     \<lparr>children = [\<lparr>tr_text = txt, tr_bold = True, tr_italics = False, tr_size = 24\<rparr>],
      alignment = None, spacing_before = Some 120, spacing_after = Some 80, indent = None\<rparr>"
| "block Label txt = Paragraph
     \<lparr>children = [\<lparr>tr_text = txt, tr_bold = True, tr_italics = False, tr_size = 24\<rparr>],
      alignment = None, spacing_before = Some 120, spacing_after = Some 80, indent = None\<rparr>"
| "block Bullet txt = Paragraph
     \<lparr>children = [\<lparr>tr_text = txt, tr_bold = False, tr_italics = False, tr_size = 22\<rparr>],
      alignment = None, spacing_before = None, spacing_after = Some 60,
      indent = Some (680, 360)\<rparr>"
| "block Body txt = Paragraph
     \<lparr>children = [\<lparr>tr_text = txt, tr_bold = False, tr_italics = False, tr_size = 22\<rparr>],
      alignment = None, spacing_before = None, spacing_after = Some 120, indent = None\<rparr>"

definition title_paragraph :: docx_paragraph where
  "title_paragraph = Paragraph
     \<lparr>children = [\<lparr>tr_text = str ''ECM Assistant Report'', tr_bold = True, tr_italics = False,
                   tr_size = 32\<rparr>],
      alignment = Some Center, spacing_before = None, spacing_after = Some 100, indent = None\<rparr>"

definition generated_paragraph :: "jsstring \<Rightarrow> docx_paragraph" where
  "generated_paragraph ts = Paragraph
     \<lparr>children = [\<lparr>tr_text = str ''Generated '' @ ts, tr_bold = True, tr_italics = False,
                   tr_size = 24\<rparr>],
      alignment = Some Center, spacing_before = None, spacing_after = Some 300, indent = None\<rparr>"

definition footer_paragraph :: "jsstring \<Rightarrow> docx_paragraph" where
  "footer_paragraph footerText = Paragraph
     \<lparr>children = [\<lparr>tr_text = footerText, tr_bold = False, tr_italics = True, tr_size = 20\<rparr>],
      alignment = Some Left, spacing_before = Some 240, spacing_after = None, indent = None\<rparr>"

text \<open>Whether a paragraph has a run in italics.\<close>

fun is_italic :: "docx_paragraph \<Rightarrow> bool" where
  "is_italic (ParagraphText s) = False"
| "is_italic (Paragraph opts) = list_ex tr_italics (children opts)"

text \<open>\<^verbatim>\<open>.replace(/\n{2,}/g, "\n")\<close>: a line feed followed by a line feed is dropped.\<close>

fun collapse_newlines :: "jsstring \<Rightarrow> jsstring" where
  "collapse_newlines (a # b # cs) =
     (if a = 10 \<and> b = 10 then collapse_newlines (b # cs) else a # collapse_newlines (b # cs))"
| "collapse_newlines cs = cs"

text \<open>
  \<^verbatim>\<open>.split(/\n| {2,}/)\<close>: the separators are the single line feeds and the maximal runs
  of two or more spaces.
\<close>

function split_lines_from :: "jsstring \<Rightarrow> jsstring \<Rightarrow> jsstring list" where
  "split_lines_from [] cur = [cur]"
| "split_lines_from (c # cs) cur =
     (if c = 10 then cur # split_lines_from cs []
      else if c = 32 \<and> cs \<noteq> [] \<and> hd cs = 32
        then cur # split_lines_from (dropWhile (\<lambda>d. d = 32) cs) []
      else split_lines_from cs (cur @ [c]))"
  by pat_completeness auto
termination
  by (relation "measure (\<lambda>(cs, cur). length cs)")
     (auto simp: less_Suc_eq_le length_dropWhile_le)

definition report_lines :: "jsstring \<Rightarrow> jsstring list" where
  "report_lines reportText = split_lines_from (collapse_newlines reportText) []"

definition footer_marker :: jsstring where
  "footer_marker = str ''This report was prepared using''"

text \<open>
  The loop \<^verbatim>\<open>for (const raw of lines)\<close>: the paragraphs it pushes. An empty line pushes
  an empty paragraph; at a line that starts with the footer marker the loop breaks.
\<close>

fun body_paragraphs :: "jsstring list \<Rightarrow> docx_paragraph list" where
  "body_paragraphs [] = []"
| "body_paragraphs (raw # rest) =
     (let t = trim raw in
      if t = [] then ParagraphText [] # body_paragraphs rest
      else if startsWith t footer_marker then []
      else (case classify t of (r, txt) \<Rightarrow> block r txt) # body_paragraphs rest)"

text \<open>
  \<^verbatim>\<open>docParagraphs\<close> when the handler builds the document: title, timestamp, the
  paragraphs of the loop, and the footer paragraph.
\<close>

definition docParagraphs :: "jsstring \<Rightarrow> jsstring \<Rightarrow> jsstring \<Rightarrow> docx_paragraph list" where
  "docParagraphs ts reportText footerText =
     [title_paragraph, generated_paragraph ts]
     @ body_paragraphs (report_lines reportText)
     @ [footer_paragraph footerText]"

section \<open>Numbers as text\<close>

text \<open>\<^verbatim>\<open>String(n)\<close> for an integer: its decimal digits, with a minus sign if negative.\<close>

fun String_nat :: "nat \<Rightarrow> jsstring" where
  "String_nat n = (if n < 10 then [48 + n] else String_nat (n div 10) @ [48 + n mod 10])"

declare String_nat.simps [simp del]

definition String_int :: "int \<Rightarrow> jsstring" where
  "String_int i = (if i < 0 then 45 # String_nat (nat (- i)) else String_nat (nat i))"

text \<open>\<^verbatim>\<open>s.padStart(2, "0")\<close>\<close>

definition padStart2 :: "jsstring \<Rightarrow> jsstring" where
  "padStart2 s = replicate (2 - length s) 48 @ s"

text \<open>\<^verbatim>\<open>texts.join(sep)\<close>\<close>

fun join_with :: "jsstring \<Rightarrow> jsstring list \<Rightarrow> jsstring" where
  "join_with sep [] = []"
| "join_with sep [s] = s"
| "join_with sep (s # s' # ss) = s @ sep @ join_with sep (s' # ss)"

section \<open>The registration code\<close>

text \<open>
  What the code reads from \<^verbatim>\<open>new Date()\<close>: \<^verbatim>\<open>getFullYear()\<close>,
  \<^verbatim>\<open>getMonth()\<close> (0 to 11) and \<^verbatim>\<open>getDate()\<close>.
\<close>

record date =
  getFullYear :: int
  getMonth :: nat
  getDate :: nat

definition dateSeed :: "date \<Rightarrow> jsstring" where
  "dateSeed now =
     drop 2 (String_int (getFullYear now))
     @ padStart2 (String_nat (getMonth now + 1))
     @ padStart2 (String_nat (getDate now))"

text \<open>
  \<^verbatim>\<open>Math.floor(1000 + Math.random() * 9000)\<close>, the value of \<^verbatim>\<open>Math.random()\<close>
  being a parameter.
\<close>

definition randomPart :: "rat \<Rightarrow> int" where
  "randomPart rnd = \<lfloor>fadd 1000 (fmul rnd 9000)\<rfloor>"

definition regRand :: "date \<Rightarrow> rat \<Rightarrow> jsstring" where
  "regRand now rnd = dateSeed now @ [45] @ String_int (randomPart rnd)"

text \<open>The line \<^verbatim>\<open>Reg. No. AIVS/UK/${regRand}/${...}\<close> of both footers.\<close>

definition reg_line :: "jsstring \<Rightarrow> nat \<Rightarrow> jsstring" where
  "reg_line reg n = str ''Reg. No. AIVS/UK/'' @ reg @ [47] @ String_nat n"

section \<open>Retrieval\<close>

text \<open>A thrown \<^verbatim>\<open>Error\<close> with its message.\<close>

datatype error = Error (message: jsstring)

record match =
  match_score :: rat
  match_text :: jsstring

record retrieval =
  joined :: jsstring
  count :: nat

text \<open>
  \<^verbatim>\<open>queryFaissIndex\<close>. The cached \<^verbatim>\<open>globalIndex\<close> (\<open>None\<close> for \<^verbatim>\<open>null\<close>) and the
  functions \<^verbatim>\<open>loadIndex\<close> and \<^verbatim>\<open>searchIndex\<close> of \<^verbatim>\<open>vector_store.js\<close> are
  parameters; a function that throws returns \<open>Inl\<close>. The entries of the index are opaque to
  \<^verbatim>\<open>server.js\<close>. The literal \<^verbatim>\<open>0.03\<close> is the double nearest to 3/100.
\<close>

definition queryFaissIndex ::
    "'v list option \<Rightarrow> (nat \<Rightarrow> error + 'v list) \<Rightarrow> (jsstring \<Rightarrow> 'v list \<Rightarrow> error + match list)
      \<Rightarrow> jsstring \<Rightarrow> retrieval" where
  "queryFaissIndex globalIndex loadIndex searchIndex question =
     (case (case globalIndex of Some index \<Rightarrow> Inr index | None \<Rightarrow> loadIndex 10000) of
        Inl err \<Rightarrow> \<lparr>joined = [], count = 0\<rparr>
      | Inr index \<Rightarrow>
          (case searchIndex question index of
             Inl err \<Rightarrow> \<lparr>joined = [], count = 0\<rparr>
           | Inr matches \<Rightarrow>
               (let filtered = filter (\<lambda>m. match_score m \<ge> fl (3 / 100)) matches;
                    texts = map match_text filtered
                in \<lparr>joined = join_with [10, 10] texts, count = length filtered\<rparr>)))"

section \<open>The report generator\<close>

definition prompt_before_query :: jsstring where
  "prompt_before_query =
     [10, 10] @
     str ''You are a UK corporate finance adviser specialising in E'' @
     str ''quity Capital Markets (ECM) and public company transacti'' @
     str ''ons.'' @
     [10] @
     str ''You work to the professional standards of a London-based'' @
     str '' firm providing FCA-regulated ECM, financial and Takeove'' @
     str ''r Code advisory services.'' @
     [10, 10] @
     str ''Use the verified UK Government, FCA, Takeover Panel, FRC'' @
     str '', HMRC, AIM, Aquis and London Stock Exchange guidance pr'' @
     str ''ovided in the Context section as your primary source.'' @
     [10] @
     str ''If the Context is limited, you may supplement it with ac'' @
     str ''curate, well-established professional knowledge of ECM p'' @
     str ''ractice,'' @
     [10] @
     str ''but clearly indicate where information reflects market c'' @
     str ''onvention rather than specific regulatory text.'' @
     [10, 10] @
     str ''You must:'' @
     [10] @
     str ''- Write only the finished report text.'' @
     [10] @
     str ''- Do not offer to draft documents or perform legal tasks'' @
     str ''.'' @
     [10] @
     str ''- Keep answers factual, neutral and practical.'' @
     [10] @
     str ''- Reflect the tone and scope appropriate for FCA-regulat'' @
     str ''ed corporate finance advisers.'' @
     [10] @
     str ''- Follow the exact structure shown.'' @
     [10, 10] @
     str ''Question: '' @
     [34]"

definition prompt_after_query :: jsstring where
  "prompt_after_query =
     [34, 10, 10] @
     str ''Structure:'' @
     [10] @
     str ''1. Query'' @
     [10] @
     str ''2. Applicability / Scope'' @
     [10] @
     str ''3. Relevant Guidance'' @
     [10] @
     str ''4. Evidence Requirements'' @
     [10] @
     str ''5. Common Non-Compliance Factors'' @
     [10] @
     str ''6. Key Reference Materials (FCA, Takeover Panel, FRC, HM'' @
     str ''RC, LSE, UK Gov, AIM, Aquis)'' @
     [10] @
     str ''7. Practical Wrap-Up'' @
     [10, 10] @
     str ''Context:'' @
     [10]"

definition fairness_instruction :: jsstring where
  "fairness_instruction =
     str ''You are an ISO 42001 fairness auditor. Identify any gend'' @
     str ''er, age, racial, or cultural bias in the text below. Res'' @
     str ''pond '' @
     [39] @
     str ''No bias detected'' @
     [39] @
     str '' if compliant.''"

definition footer_before_fairness :: jsstring where
  "footer_before_fairness =
     [10, 10] @
     str ''This report was prepared using the AIVS FAISS-indexed EC'' @
     str ''M knowledge base,'' @
     [10] @
     str ''derived entirely from verified UK Government, HSE, DEFRA'' @
     str '' and professional manuals.'' @
     [10] @
     str ''It is provided for internal compliance and advisory purp'' @
     str ''oses only and should not'' @
     [10] @
     str ''be relied upon as a substitute for professional environm'' @
     str ''ental or compliance advice.'' @
     [10, 10] @
     str ''ISO 42001 Fairness Verification: ''"

definition footer_after_reg :: jsstring where
  "footer_after_reg =
     [10, 169] @
     str '' AIVS Software Limited 2025 '' @
     [8212] @
     str '' All rights reserved.''"

text \<open>
  \<^verbatim>\<open>text.replace(/8\)\s*Appendix[\s\S]*$/gi, "")\<close>: the text is cut at the first place
  where \<^verbatim>\<open>8)\<close>, whitespace and the word Appendix, in any case, follow one another.
\<close>

definition lower :: "nat \<Rightarrow> nat" where
  "lower c = (if is_upper c then c + 32 else c)"

definition appendix_here :: "jsstring \<Rightarrow> bool" where
  "appendix_here s =
     (startsWith s [56, 41]
      \<and> startsWith (map lower (dropWhile is_ws (drop 2 s))) (str ''appendix''))"

fun strip_appendix :: "jsstring \<Rightarrow> jsstring" where
  "strip_appendix [] = []"
| "strip_appendix (c # cs) = (if appendix_here (c # cs) then [] else c # strip_appendix cs)"

datatype chat_role = System | User

text \<open>
  Everything outside \<^verbatim>\<open>server.js\<close> that a request meets: the retrieval functions, the
  chat completion (the content of its first choice, or a throw), the clock
  and \<^verbatim>\<open>Math.random()\<close> as read in \<^verbatim>\<open>generateECMAssistant\<close> and in the handler, the
  PDF library, the two encoders and the mail request.
\<close>

type_synonym bytes = "nat list"

record mail =
  recipients :: "jsstring list"
  subject :: jsstring
  TextPart :: jsstring
  HTMLPart :: jsstring
  attachments :: "(jsstring \<times> jsstring \<times> bytes) list"

record 'v world =
  globalIndex :: "'v list option"
  loadIndex :: "nat \<Rightarrow> error + 'v list"
  searchIndex :: "jsstring \<Rightarrow> 'v list \<Rightarrow> error + match list"
  chat :: "(chat_role \<times> jsstring) list \<Rightarrow> error + jsstring"
  report_now :: date
  report_random :: rat
  ts_iso :: jsstring
  docx_now :: date
  docx_random :: rat
  pdf :: pdflib
  pdf_save :: "draw_op list list \<Rightarrow> error + bytes"
  toBuffer :: "docx_paragraph list \<Rightarrow> error + bytes"
  fetch_mailjet :: "mail \<Rightarrow> error + unit"

text \<open>The footer that \<^verbatim>\<open>generateECMAssistant\<close> appends to the report.\<close>

definition report_footer :: "jsstring \<Rightarrow> jsstring \<Rightarrow> nat \<Rightarrow> jsstring" where
  "report_footer fairnessResult reg n =
     footer_before_fairness @ fairnessResult @ [10] @ reg_line reg n @ footer_after_reg"

definition prompt_for :: "jsstring \<Rightarrow> jsstring \<Rightarrow> jsstring" where
  "prompt_for query context = trim (prompt_before_query @ query @ prompt_after_query @ context)"

text \<open>
  \<^verbatim>\<open>generateECMAssistant\<close> from the result of the retrieval on. A throw of the first
  completion leaves the function; a throw of the fairness check is caught.
\<close>

definition generate_from :: "'v world \<Rightarrow> jsstring \<Rightarrow> retrieval \<Rightarrow> error + jsstring" where
  "generate_from w query r =
     (let context = (if length (joined r) > 50000 then take 50000 (joined r) else joined r);
          prompt = prompt_for query context
      in case chat w [(User, prompt)] of
           Inl err \<Rightarrow> Inl err
         | Inr content \<Rightarrow>
             (let txt = trim (strip_appendix (trim content));
                  fairnessResult =
                    (case chat w [(System, fairness_instruction), (User, txt)] of
                       Inr c \<Rightarrow> trim c
                     | Inl e \<Rightarrow> str ''Fairness verification not completed ('' @ message e
                                @ str '')'');
                  footer = report_footer fairnessResult
                             (regRand (report_now w) (report_random w)) (count r)
              in Inr (txt @ [10, 10] @ footer)))"

definition generateECMAssistant :: "'v world \<Rightarrow> jsstring \<Rightarrow> error + jsstring" where
  "generateECMAssistant w query =
     generate_from w query
       (queryFaissIndex (globalIndex w) (loadIndex w) (searchIndex w) query)"

section \<open>The handler of /ask\<close>

definition footerText_before_reg :: jsstring where
  "footerText_before_reg =
     [10] @
     str ''This report was prepared using the AIVS FAISS-indexed EC'' @
     str ''M knowledge base,'' @
     [10] @
     str ''derived entirely from verified UK Government, HSE, DEFRA'' @
     str '' and professional manuals.'' @
     [10] @
     str ''It is provided for internal compliance and advisory purp'' @
     str ''oses only and should not'' @
     [10] @
     str ''be relied upon as a substitute for professional environm'' @
     str ''ental or compliance advice.'' @
     [10, 10]"

text \<open>\<^verbatim>\<open>footerText\<close>, the text of the footer paragraph of the flowable document.\<close>

definition footerText :: "date \<Rightarrow> rat \<Rightarrow> 'v list option \<Rightarrow> jsstring" where
  "footerText now rnd gi =
     footerText_before_reg
     @ reg_line (regRand now rnd) (case gi of None \<Rightarrow> 0 | Some index \<Rightarrow> length index)
     @ footer_after_reg"

text \<open>The fields of \<^verbatim>\<open>req.body\<close> that the handler reads.\<close>

record request =
  body_question :: "jsstring option"
  body_email :: "jsstring option"
  body_managerEmail :: "jsstring option"
  body_clientEmail :: "jsstring option"

datatype json = ErrorJson jsstring | AnswerJson jsstring jsstring jsstring

datatype response = Response nat json

text \<open>\<^verbatim>\<open>reportText.split("\n")\<close>\<close>

fun split_nl_from :: "jsstring \<Rightarrow> jsstring \<Rightarrow> jsstring list" where
  "split_nl_from [] cur = [cur]"
| "split_nl_from (c # cs) cur =
     (if c = 10 then cur # split_nl_from cs [] else split_nl_from cs (cur @ [c]))"

text \<open>
  The message posted to the mail service; the base64 coding of the two buffers is left to
  the transport.
\<close>

definition truthy :: "jsstring option \<Rightarrow> bool" where
  "truthy v = (case v of None \<Rightarrow> False | Some s \<Rightarrow> s \<noteq> [])"

definition mail_message :: "request \<Rightarrow> jsstring \<Rightarrow> jsstring \<Rightarrow> bytes \<Rightarrow> bytes \<Rightarrow> mail" where
  "mail_message req ts reportText pdfBuf docBuf =
     \<lparr>recipients = map the (filter truthy [body_email req, body_managerEmail req, body_clientEmail req]),
      subject = str ''Your AI ECM Assistant Report'',
      TextPart = reportText,
      HTMLPart = concat (map (\<lambda>l. str ''<p>'' @ l @ str ''</p>'') (split_nl_from reportText [])),
      attachments =
        [(str ''application/pdf'', str ''ecm-audit-'' @ ts @ str ''.pdf'', pdfBuf),
         (str ''application/vnd.openxmlformats-officedocument.wordprocessingml.document'',
          str ''ecm-report.docx'', docBuf)]\<rparr>"

text \<open>The paragraphs of the flowable document that the handler hands to the encoder.\<close>

definition handler_document :: "'v world \<Rightarrow> jsstring \<Rightarrow> docx_paragraph list" where
  "handler_document w reportText =
     docParagraphs (ts_iso w) reportText
       (footerText (docx_now w) (docx_random w) (globalIndex w))"

definition report_failed :: response where
  "report_failed = Response 500 (ErrorJson (str ''Report generation failed''))"

text \<open>
  The handler. A throw of the generator or of an encoder is caught by the outer
  \<^verbatim>\<open>try\<close>; a throw while the mail is sent is caught by the inner one, after which the
  handler goes on to \<^verbatim>\<open>res.json\<close>.
\<close>

definition ask :: "'v world \<Rightarrow> request \<Rightarrow> response" where
  "ask w req =
     (if \<not> truthy (body_question req) then Response 400 (ErrorJson (str ''Missing question''))
      else
        (let q = the (body_question req); ts = ts_iso w in
         case generateECMAssistant w q of
           Inl err \<Rightarrow> report_failed
         | Inr reportText \<Rightarrow>
            (case pdf_save w (pages (buildPdfBufferStructured (pdf w) (body_email req) ts q reportText)) of
               Inl err \<Rightarrow> report_failed
             | Inr pdfBuf \<Rightarrow>
                (case toBuffer w (handler_document w reportText) of
                   Inl err \<Rightarrow> report_failed
                 | Inr docBuf \<Rightarrow>
                    (case fetch_mailjet w (mail_message req ts reportText pdfBuf docBuf) of
                       Inl e \<Rightarrow> Response 200 (AnswerJson q reportText ts)
                     | Inr sent \<Rightarrow> Response 200 (AnswerJson q reportText ts))))))"

section \<open>Sample inputs\<close>

text \<open>A report with a footer of its own, a request, and a world in which the retrieval
  finds three passages in an index of five entries, for concrete runs.\<close>

definition sample_report :: jsstring where
  "sample_report =
     str ''1. Query'' @ [10] @ str ''Body text'' @ [10, 10]
     @ str ''This report was prepared using the base'' @ [10] @ str ''Reg. No. 1''"

definition sample_request :: request where
  "sample_request =
     \<lparr>body_question = Some (str ''What is required?''), body_email = Some (str ''a@b.uk''),
      body_managerEmail = None, body_clientEmail = Some []\<rparr>"

definition sample_date :: date where
  "sample_date = \<lparr>getFullYear = 2025, getMonth = 9, getDate = 29\<rparr>"

definition sample_matches :: "match list" where
  "sample_matches =
     [\<lparr>match_score = 7 / 8, match_text = str ''one''\<rparr>,
      \<lparr>match_score = 1 / 128, match_text = str ''two''\<rparr>,
      \<lparr>match_score = 1 / 16, match_text = str ''three''\<rparr>,
      \<lparr>match_score = 1 / 2, match_text = str ''four''\<rparr>]"

definition sample_chat :: "(chat_role \<times> jsstring) list \<Rightarrow> error + jsstring" where
  "sample_chat messages =
     (if length messages = 1 then Inr (str '' 1. Query '') else Inr (str ''No bias detected''))"

definition sample_world :: "nat world" where
  "sample_world =
     \<lparr>globalIndex = Some [1, 2, 3, 4, 5],
      loadIndex = (\<lambda>n. Inl (Error (str ''no index file''))),
      searchIndex = (\<lambda>q index. Inr sample_matches),
      chat = sample_chat,
      report_now = sample_date, report_random = 1 / 2,
      ts_iso = str ''2025-10-29T16:15:00.000Z'',
      docx_now = sample_date, docx_random = 1 / 4,
      pdf = small_page,
      pdf_save = (\<lambda>ps. Inr [37, 80, 68, 70]),
      toBuffer = (\<lambda>ps. Inr [80, 75]),
      fetch_mailjet = (\<lambda>m. Inl (Error (str ''connect ECONNREFUSED'')))\<rparr>"

text \<open>
  The wording of the specification for the two-digit fields of the date seed: the tens and
  the units of a number, as two decimal digits.
\<close>

definition spec_two_digits :: "nat \<Rightarrow> jsstring" where
  "spec_two_digits n = [48 + n div 10 mod 10, 48 + n mod 10]"

text \<open>A search that throws.\<close>

definition failing_search :: "jsstring \<Rightarrow> nat list \<Rightarrow> error + match list" where
  "failing_search q index = Inl (Error (str ''index not readable''))"

text \<open>A report of five words that each fill a row of the small page.\<close>

definition five_rows :: jsstring where
  "five_rows = str ''aaaaaaaaaa bbbbbbbbbb cccccccccc dddddddddd eeeeeeeeee''"

text \<open>A report with a lettered line before its footer and a copyright sign after it.\<close>

definition tail_report :: jsstring where
  "tail_report =
     str ''A. Scope'' @ [10] @ str ''This report was prepared using X'' @ [10, 169]
     @ str '' tail''"

section \<open>Evaluating numbers\<close>

lemma floor_rat_numeral [simp]: "\<lfloor>numeral a / numeral b :: rat\<rfloor> = numeral a div numeral b"
  using floor_divide_of_int_eq [of "numeral a" "numeral b", where ?'a = rat] by simp

lemma floor_rat_one_numeral [simp]: "\<lfloor>1 / numeral b :: rat\<rfloor> = 1 div numeral b"
  using floor_divide_of_int_eq [of 1 "numeral b", where ?'a = rat] by simp

lemma floor_rat_neg_numeral [simp]:
  "\<lfloor>- (numeral a / numeral b) :: rat\<rfloor> = - numeral a div numeral b"
  using floor_divide_of_int_eq [of "- numeral a" "numeral b", where ?'a = rat] by simp

lemma ceiling_rat_numeral [simp]:
  "\<lceil>numeral a / numeral b :: rat\<rceil> = - (- numeral a div numeral b)"
  unfolding ceiling_def by simp

lemma ceiling_rat_one_numeral [simp]:
  "\<lceil>1 / numeral b :: rat\<rceil> = - (- 1 div numeral b)"
  unfolding ceiling_def
  using floor_divide_of_int_eq [of "- 1" "numeral b", where ?'a = rat] by simp

lemmas fl_eval = fl_def exponent_def pow2_def round_even_def bit_length.simps
  fadd_def fsub_def fmul_def Let_def

text \<open>
  The rounding agrees with the arithmetic of the engine: \<^verbatim>\<open>11 * 1.4\<close> is
  \<^verbatim>\<open>15.399999999999999\<close>, below 77/5, and \<^verbatim>\<open>0.03\<close> is below 3/100.
\<close>

lemma lh_value: "lh = 2167357320672051 / 140737488355328"
  by (simp add: lh_def d1_4_def fsBody_def fl_eval)

lemma title_advance_value: "fmul fsTitle d1_4 = 3152519739159347 / 140737488355328"
  by (simp add: d1_4_def fsTitle_def fl_eval)

lemma threshold_value: "fl (3 / 100) = 1080863910568919 / 36028797018963968"
  by (simp add: fl_eval)

section \<open>Wrap correctness\<close>

lemma wrap_step_cases:
  "wrap_step wd maxWidth (cur, rows) w =
     (if cur = [] then (w, rows)
      else if wd (cur @ 32 # w) > maxWidth then (w, rows @ [cur])
      else (cur @ 32 # w, rows))"
  by (simp add: wrap_step_def)

lemma wrap_loop_rows_fit:
  assumes "\<forall>r \<in> set rows. wd r \<le> maxWidth \<or> r \<in> T"
    and "cur = [] \<and> ws \<noteq> [] \<or> wd cur \<le> maxWidth \<or> cur \<in> T"
    and "set ws \<subseteq> T"
  shows "\<forall>r \<in> set (wrap_loop wd maxWidth ws (cur, rows)). wd r \<le> maxWidth \<or> r \<in> T"
  using assms
proof (induction ws arbitrary: cur rows)
  case Nil
  then show ?case by auto
next
  case (Cons w ws)
  have w: "w \<in> T" and ws: "set ws \<subseteq> T"
    using Cons.prems(3) by simp_all
  consider (first) "cur = []"
    | (push) "cur \<noteq> []" "wd (cur @ 32 # w) > maxWidth"
    | (append) "cur \<noteq> []" "\<not> wd (cur @ 32 # w) > maxWidth"
    by blast
  then show ?case
  proof cases
    case first
    have "\<forall>r \<in> set (wrap_loop wd maxWidth ws (w, rows)). wd r \<le> maxWidth \<or> r \<in> T"
      using Cons.prems(1) w ws by (intro Cons.IH) simp_all
    then show ?thesis using first by (simp add: wrap_step_cases)
  next
    case push
    have "\<forall>r \<in> set (wrap_loop wd maxWidth ws (w, rows @ [cur])). wd r \<le> maxWidth \<or> r \<in> T"
      using Cons.prems(1,2) push w ws by (intro Cons.IH) auto
    then show ?thesis using push by (simp add: wrap_step_cases)
  next
    case append
    have "\<forall>r \<in> set (wrap_loop wd maxWidth ws (cur @ 32 # w, rows)). wd r \<le> maxWidth \<or> r \<in> T"
      using Cons.prems(1) append ws by (intro Cons.IH) auto
    then show ?thesis using append by (simp add: wrap_step_cases)
  qed
qed

lemma split_ws_from_nonempty: "split_ws_from cs cur \<noteq> []"
  by (induction cs cur rule: split_ws_from.induct) auto

text \<open>
  Claim C1. Every row that \<open>wrap\<close> returns measures at most the maximum width, or it is one
  token of the input, alone and unsplit, that measures more than the maximum width by
  itself. The function is total: such a token is not an error.
\<close>

theorem wrap_rows_fit:
  "\<forall>r \<in> set (wrap wid txt x maxWidth sz fnt).
     wid fnt r sz \<le> maxWidth
     \<or> (r \<in> set (split_ws txt) \<and> maxWidth < wid fnt r sz)"
proof -
  let ?wd = "\<lambda>s. wid fnt s sz"
  have "\<forall>r \<in> set (wrap_loop ?wd maxWidth (split_ws txt) ([], [])).
          ?wd r \<le> maxWidth \<or> r \<in> set (split_ws txt)"
    by (rule wrap_loop_rows_fit)
       (simp_all add: split_ws_def split_ws_from_nonempty)
  then show ?thesis
    unfolding wrap_def by (meson not_le)
qed

theorem wrap_rows_fit_witness:
  "wrap half_em (str ''aa bbbbbbbb c d'') 50 2 1 Helvetica
     = [str ''aa'', str ''bbbbbbbb'', str ''c d'']
   \<and> half_em Helvetica (str ''aa'') 1 \<le> 2
   \<and> str ''bbbbbbbb'' \<in> set (split_ws (str ''aa bbbbbbbb c d''))
   \<and> 2 < half_em Helvetica (str ''bbbbbbbb'') 1
   \<and> half_em Helvetica (str ''c d'') 1 \<le> 2"
  using wrap_rows_fit [of half_em "str ''aa bbbbbbbb c d''" 50 2 1 Helvetica]
  by (simp add: wrap_def wrap_step_def split_ws_def str_def is_ws_def half_em_def)

section \<open>Row order preservation\<close>

lemma join_sp_snoc: "join_sp (rs @ [a, b]) = join_sp (rs @ [a @ 32 # b])"
  by (induction rs rule: join_sp.induct) simp_all

lemma join_sp_Cons: "ws \<noteq> [] \<Longrightarrow> join_sp (w # ws) = w @ 32 # join_sp ws"
  by (cases ws) simp_all

lemma wrap_loop_join:
  assumes "cur \<noteq> []" and "\<forall>w \<in> set ws. w \<noteq> []"
  shows "join_sp (wrap_loop wd maxWidth ws (cur, rows)) = join_sp (rows @ [join_sp (cur # ws)])"
  using assms
proof (induction ws arbitrary: cur rows)
  case Nil
  then show ?case by simp
next
  case (Cons w ws)
  have w: "w \<noteq> []" and ws: "\<forall>w \<in> set ws. w \<noteq> []"
    using Cons.prems(2) by simp_all
  show ?case
  proof (cases "wd (cur @ 32 # w) > maxWidth")
    case True
    have "join_sp (wrap_loop wd maxWidth ws (w, rows @ [cur]))
            = join_sp ((rows @ [cur]) @ [join_sp (w # ws)])"
      using w ws by (intro Cons.IH)
    also have "\<dots> = join_sp (rows @ [cur @ 32 # join_sp (w # ws)])"
      using join_sp_snoc [of rows cur "join_sp (w # ws)"] by simp
    finally show ?thesis
      using True Cons.prems(1) by (simp add: wrap_step_cases)
  next
    case False
    have "join_sp (wrap_loop wd maxWidth ws (cur @ 32 # w, rows))
            = join_sp (rows @ [join_sp ((cur @ 32 # w) # ws)])"
      using ws by (intro Cons.IH) simp_all
    also have "join_sp ((cur @ 32 # w) # ws) = join_sp (cur # w # ws)"
      by (cases ws) simp_all
    finally show ?thesis
      using False Cons.prems(1) by (simp add: wrap_step_cases)
  qed
qed

lemma wrap_loop_join_start:
  assumes "\<forall>w \<in> set ws. w \<noteq> []" "ws \<noteq> []"
  shows "join_sp (wrap_loop wd maxWidth ws ([], [])) = join_sp ws"
proof (cases ws)
  case Nil
  with assms show ?thesis by simp
next
  case (Cons w ws')
  then have "w \<noteq> []" "\<forall>w \<in> set ws'. w \<noteq> []" using assms by simp_all
  from wrap_loop_join [OF this, of wd maxWidth "[]"] Cons show ?thesis
    by (simp add: wrap_step_cases)
qed

lemma split_ws_from_tokens:
  assumes "cur \<noteq> [] \<or> (cs \<noteq> [] \<and> \<not> is_ws (hd cs))"
    and "cs = [] \<or> \<not> is_ws (last cs)"
  shows "\<forall>w \<in> set (split_ws_from cs cur). w \<noteq> []"
  using assms
proof (induction cs cur rule: split_ws_from.induct)
  case (1 cur)
  then show ?case by simp
next
  case (2 c cs cur)
  show ?case
  proof (cases "is_ws c")
    case True
    let ?r = "dropWhile is_ws cs"
    from True "2.prems" have cur: "cur \<noteq> []" by simp
    from True "2.prems"(2) have cs: "cs \<noteq> []" "\<not> is_ws (last cs)" by (auto split: if_splits)
    then have r: "?r \<noteq> []"
      by (metis dropWhile_eq_Nil_conv last_in_set)
    then have "\<not> is_ws (hd ?r)" by (rule hd_dropWhile)
    moreover have "last ?r = last cs"
      using r by (metis takeWhile_dropWhile_id last_appendR)
    ultimately have "\<forall>w \<in> set (split_ws_from ?r []). w \<noteq> []"
      using True r cs by (intro "2.IH"(1)) simp_all
    with True cur show ?thesis by simp
  next
    case False
    have "\<forall>w \<in> set (split_ws_from cs (cur @ [c])). w \<noteq> []"
      using False "2.prems"(2) by (intro "2.IH"(2)) (auto split: if_splits)
    with False show ?thesis by simp
  qed
qed

lemma wrap_join_trimmed:
  assumes "txt = [] \<or> (\<not> is_ws (hd txt) \<and> \<not> is_ws (last txt))"
  shows "join_sp (wrap wid txt x maxWidth sz fnt) = join_sp (split_ws txt)"
proof (cases "txt = []")
  case True
  then show ?thesis by (simp add: wrap_def split_ws_def wrap_step_cases)
next
  case False
  with assms have "\<forall>w \<in> set (split_ws txt). w \<noteq> []"
    unfolding split_ws_def by (intro split_ws_from_tokens) simp_all
  then show ?thesis
    unfolding wrap_def
    by (intro wrap_loop_join_start) (simp_all add: split_ws_def split_ws_from_nonempty)
qed

lemma trim_end_Nil [simp]: "trim_end [] = []"
  by (simp add: trim_end_def)

lemma trim_end_Cons:
  "trim_end (a # s) = (if is_ws a \<and> trim_end s = [] then [] else a # trim_end s)"
proof (cases "\<forall>c \<in> set s. is_ws c")
  case True
  then have "dropWhile is_ws (rev s) = []" by simp
  moreover have "dropWhile is_ws (rev s @ [a]) = dropWhile is_ws [a]"
    by (rule dropWhile_append2) (use True in auto)
  ultimately show ?thesis by (simp add: trim_end_def)
next
  case False
  then obtain c where "c \<in> set (rev s)" "\<not> is_ws c" by auto
  then have "dropWhile is_ws (rev s @ [a]) = dropWhile is_ws (rev s) @ [a]"
    and "dropWhile is_ws (rev s) \<noteq> []"
    by (auto simp: dropWhile_append1)
  then show ?thesis by (simp add: trim_end_def)
qed

lemma trim_end_hd: "s \<noteq> [] \<Longrightarrow> \<not> is_ws (hd s) \<Longrightarrow> trim_end s = hd s # trim_end (tl s)"
  by (cases s) (simp_all add: trim_end_Cons)

lemma trim_trimmed: "trim s = [] \<or> (\<not> is_ws (hd (trim s)) \<and> \<not> is_ws (last (trim s)))"
proof (cases "trim s = []")
  case True
  then show ?thesis by simp
next
  case False
  let ?d = "dropWhile is_ws s"
  let ?e = "dropWhile is_ws (rev ?d)"
  have e: "?e \<noteq> []" using False by (simp add: trim_def trim_end_def)
  then have "\<not> is_ws (hd ?e)" by (rule hd_dropWhile)
  then have l: "\<not> is_ws (last (trim s))"
    using e by (simp add: trim_def trim_end_def last_rev)
  have d: "?d \<noteq> []" using e by (metis dropWhile.simps(1) rev.simps(1))
  then have hd: "\<not> is_ws (hd ?d)" by (rule hd_dropWhile)
  have "trim s = hd ?d # trim_end (tl ?d)"
    unfolding trim_def using d hd by (rule trim_end_hd)
  with hd l show ?thesis by simp
qed

lemma spec_tokens_all: "\<forall>w \<in> set ws. w \<noteq> [] \<Longrightarrow> filter (\<lambda>w. w \<noteq> []) ws = ws"
  by (induction ws) simp_all

lemma wrap_join_tokens:
  assumes "txt = [] \<or> \<not> is_ws (last txt)"
  shows "join_sp (wrap wid txt x maxWidth sz fnt) = join_sp (spec_tokens txt)"
proof (cases "txt")
  case Nil
  then show ?thesis by (simp add: wrap_def split_ws_def spec_tokens_def wrap_step_cases)
next
  case (Cons c cs)
  with assms have l: "\<not> is_ws (last (c # cs))" by simp
  show ?thesis
  proof (cases "is_ws c")
    case False
    then have "\<forall>w \<in> set (split_ws txt). w \<noteq> []"
      unfolding split_ws_def Cons using l by (intro split_ws_from_tokens) simp_all
    then have "spec_tokens txt = split_ws txt"
      unfolding spec_tokens_def by (rule spec_tokens_all)
    moreover have "join_sp (wrap wid txt x maxWidth sz fnt) = join_sp (split_ws txt)"
      by (rule wrap_join_trimmed) (use False l Cons in simp)
    ultimately show ?thesis by simp
  next
    case True
    let ?r = "dropWhile is_ws cs"
    let ?ts = "split_ws_from ?r []"
    from True l have cs: "cs \<noteq> []" "\<not> is_ws (last cs)" by (auto split: if_splits)
    then have r: "?r \<noteq> []" by (metis dropWhile_eq_Nil_conv last_in_set)
    then have h: "\<not> is_ws (hd ?r)" by (rule hd_dropWhile)
    have "last ?r = last cs" using r by (metis takeWhile_dropWhile_id last_appendR)
    with cs have lr: "\<not> is_ws (last ?r)" by simp
    have ts: "\<forall>w \<in> set ?ts. w \<noteq> []"
      using r h lr by (intro split_ws_from_tokens) simp_all
    have sp: "split_ws txt = [] # ?ts"
      using True by (simp add: split_ws_def Cons)
    have "join_sp (wrap wid txt x maxWidth sz fnt)
            = join_sp (wrap_loop (\<lambda>s. wid fnt s sz) maxWidth ?ts ([], []))"
      by (simp add: wrap_def sp wrap_step_cases)
    also have "\<dots> = join_sp ?ts"
      using ts by (rule wrap_loop_join_start) (rule split_ws_from_nonempty)
    also have "?ts = spec_tokens txt"
      using spec_tokens_all [OF ts] by (simp add: spec_tokens_def sp)
    finally show ?thesis .
  qed
qed

text \<open>
  Claim C5. For every line that \<open>para\<close> hands to \<open>wrap\<close> (the sanitized, trimmed text),
  every maximum width and every measurement, the rows joined by single spaces, in order,
  are the whitespace-separated tokens of the line joined by single spaces: no token is
  lost, duplicated or reordered. The same holds for every text that does not end in
  whitespace.
\<close>

theorem wrap_preserves_tokens:
  "join_sp (wrap wid (sanitizeForPdf t) x maxWidth sz fnt) = join_sp (spec_tokens (sanitizeForPdf t))
   \<and> (txt = [] \<or> \<not> is_ws (last txt)
        \<longrightarrow> join_sp (wrap wid txt x maxWidth sz fnt) = join_sp (spec_tokens txt))"
proof
  have "trim (filter pdf_safe t) = [] \<or> \<not> is_ws (last (trim (filter pdf_safe t)))"
    using trim_trimmed [of "filter pdf_safe t"] by blast
  then show "join_sp (wrap wid (sanitizeForPdf t) x maxWidth sz fnt)
               = join_sp (spec_tokens (sanitizeForPdf t))"
    unfolding sanitizeForPdf_def by (rule wrap_join_tokens)
  show "txt = [] \<or> \<not> is_ws (last txt)
        \<longrightarrow> join_sp (wrap wid txt x maxWidth sz fnt) = join_sp (spec_tokens txt)"
    using wrap_join_tokens by blast
qed

theorem wrap_preserves_tokens_witness:
  "sanitizeForPdf ([9] @ str ''aa  bbbbbbbb c d '' @ [10]) = str ''aa  bbbbbbbb c d''
   \<and> wrap half_em (sanitizeForPdf ([9] @ str ''aa  bbbbbbbb c d '' @ [10])) 50 2 1 Helvetica
       = [str ''aa'', str ''bbbbbbbb'', str ''c d'']
   \<and> join_sp (wrap half_em (sanitizeForPdf ([9] @ str ''aa  bbbbbbbb c d '' @ [10])) 50 2 1 Helvetica)
       = str ''aa bbbbbbbb c d''
   \<and> spec_tokens (str ''  aa b'') = [str ''aa'', str ''b'']
   \<and> join_sp (wrap half_em (str ''  aa b'') 50 2 1 Helvetica) = str ''aa b''"
proof -
  have s: "sanitizeForPdf ([9] @ str ''aa  bbbbbbbb c d '' @ [10]) = str ''aa  bbbbbbbb c d''"
    by (simp add: sanitizeForPdf_def pdf_safe_def trim_def trim_end_def str_def is_ws_def)
  have t: "spec_tokens (str ''aa  bbbbbbbb c d'')
             = [str ''aa'', str ''bbbbbbbb'', str ''c'', str ''d'']"
    "spec_tokens (str ''  aa b'') = [str ''aa'', str ''b'']"
    by (simp_all add: spec_tokens_def split_ws_def str_def is_ws_def)
  have w: "wrap half_em (str ''aa  bbbbbbbb c d'') 50 2 1 Helvetica
             = [str ''aa'', str ''bbbbbbbb'', str ''c d'']"
    by (simp add: wrap_def wrap_step_def split_ws_def str_def is_ws_def half_em_def)
  have l: "str ''  aa b'' = [] \<or> \<not> is_ws (last (str ''  aa b''))"
    by (simp add: str_def is_ws_def)
  from wrap_preserves_tokens [of half_em "[9] @ str ''aa  bbbbbbbb c d '' @ [10]" 50 2 1
      Helvetica "str ''  aa b''"] l
  show ?thesis
    unfolding s t w by (simp add: str_def)
qed

section \<open>Pagination\<close>

lemma drawn_ensure: "drawn (ensure lib need st) = drawn st"
  by (simp add: drawn_def pages_def ensure_def)

lemma drawn_draw: "drawn (draw txt x y sz fnt st) = drawn st @ [txt]"
  by (simp add: drawn_def pages_def draw_def)

lemma drawn_y_update: "drawn (st\<lparr>st_y := v\<rparr>) = drawn st"
  by (simp add: drawn_def pages_def)

lemma drawn_para_row: "drawn (para_row lib x sz fnt st r) = drawn st @ [r]"
  by (simp add: para_row_def Let_def drawn_y_update drawn_draw drawn_ensure)

lemma drawn_rows: "drawn (foldl (para_row lib x sz fnt) st rows) = drawn st @ rows"
  by (induction rows arbitrary: st) (simp_all add: drawn_para_row)

lemma drawn_para:
  "drawn (para lib txt x sz fnt st)
     = drawn st @ wrap (widthOfTextAtSize lib) (sanitizeForPdf txt) x (fsub (fsub (st_width st) x) margin) sz fnt"
  by (simp add: para_def Let_def drawn_rows)

lemma width_ensure: "st_width st = page_width lib \<Longrightarrow> st_width (ensure lib need st) = page_width lib"
  by (simp add: ensure_def)

lemma width_para_row:
  "st_width st = page_width lib \<Longrightarrow> st_width (para_row lib x sz fnt st r) = page_width lib"
  by (simp add: para_row_def Let_def draw_def width_ensure)

lemma width_rows:
  "st_width st = page_width lib \<Longrightarrow> st_width (foldl (para_row lib x sz fnt) st rows) = page_width lib"
  by (induction rows arbitrary: st) (simp_all add: width_para_row)

lemma width_para:
  "st_width st = page_width lib \<Longrightarrow> st_width (para lib txt x sz fnt st) = page_width lib"
  by (simp add: para_def Let_def width_rows)

lemma width_header: "st_width (pdf_header lib fullName ts) = page_width lib"
  by (simp add: pdf_header_def Let_def width_para draw_def pdf_initial_def)

lemma numbered_append:
  "numbered p (xs @ ys) = numbered p xs @ numbered (p + length xs) ys"
  by (induction xs arbitrary: p) simp_all

lemma spec_place_append:
  "spec_place lib x sz fnt p y (is1 @ is2)
     = spec_place lib x sz fnt p y is1
       @ spec_place lib x sz fnt (fst (spec_cursor lib p y is1)) (snd (spec_cursor lib p y is1)) is2"
  by (induction lib x sz fnt p y is1 rule: spec_place.induct) simp_all

lemma spec_cursor_append:
  "spec_cursor lib p y (is1 @ is2)
     = spec_cursor lib (fst (spec_cursor lib p y is1)) (snd (spec_cursor lib p y is1)) is2"
  by (induction lib p y is1 rule: spec_cursor.induct) simp_all

lemma continues_refl: "continues lib x sz fnt st [] st"
  by (simp add: continues_def)

lemma continues_trans:
  assumes "continues lib x sz fnt st is1 st1" and "continues lib x sz fnt st1 is2 st2"
  shows "continues lib x sz fnt st (is1 @ is2) st2"
proof -
  from assms(1) have "spec_cursor lib (length (earlier st)) (st_y st) is1
      = (length (earlier st1), st_y st1)"
    by (simp add: continues_def)
  then have c: "fst (spec_cursor lib (length (earlier st)) (st_y st) is1) = length (earlier st1)"
    "snd (spec_cursor lib (length (earlier st)) (st_y st) is1) = st_y st1"
    by simp_all
  show ?thesis
    using assms unfolding continues_def spec_place_append spec_cursor_append c by simp
qed

lemma continues_gap: "continues lib x sz fnt st [Gap d] (st\<lparr>st_y := fsub (st_y st) d\<rparr>)"
  by (simp add: continues_def placements_def pages_def)

lemma continues_row: "continues lib x sz fnt st [Row r] (para_row lib x sz fnt st r)"
  by (simp add: continues_def placements_def pages_def para_row_def ensure_def draw_def Let_def
      numbered_append)

lemma continues_rows:
  "continues lib x sz fnt st (map Row rows) (foldl (para_row lib x sz fnt) st rows)"
proof (induction rows arbitrary: st)
  case Nil
  show ?case by (simp add: continues_refl)
next
  case (Cons r rows)
  from continues_trans [OF continues_row Cons.IH]
  show ?case by simp
qed

lemma continues_para:
  "continues lib x sz fnt st
     (map Row (wrap (widthOfTextAtSize lib) (sanitizeForPdf txt) x
                 (fsub (fsub (st_width st) x) margin) sz fnt))
     (para lib txt x sz fnt st)"
  by (simp add: para_def Let_def continues_rows)


lemma width_initial: "st_width (pdf_initial lib) = page_width lib"
  by (simp add: pdf_initial_def)

lemma rows_of_para:
  assumes "st_width st = page_width lib"
  shows "continues lib margin fsBody Helvetica st (map Row (rows_of lib t))
           (para lib t margin fsBody Helvetica st)"
  using continues_para [of lib margin fsBody Helvetica st t] assms
  by (simp add: rows_of_def printable_width_def)

lemma drawn_rows_of:
  assumes "st_width st = page_width lib"
  shows "drawn (para lib t margin fsBody Helvetica st) = drawn st @ rows_of lib t"
  using assms by (simp add: drawn_para rows_of_def printable_width_def)

lemma build_continues:
  "continues lib margin fsBody Helvetica
     (draw (str ''ECM Assistant Report'') margin (st_y (pdf_initial lib)) fsTitle HelveticaBold
        (pdf_initial lib))
     (spec_content lib fullName ts question reportText)
     (buildPdfBufferStructured lib fullName ts question reportText)"
proof -
  let ?st1 = "draw (str ''ECM Assistant Report'') margin (st_y (pdf_initial lib)) fsTitle
                HelveticaBold (pdf_initial lib)"
  let ?st2 = "?st1\<lparr>st_y := fsub (st_y ?st1) (fmul fsTitle d1_4)\<rparr>"
  let ?st3 = "para lib (str ''Prepared for: '' @ or_default fullName (str ''N/A''))
                margin fsBody Helvetica ?st2"
  let ?st4 = "para lib (str ''Timestamp (UK): '' @ ts) margin fsBody Helvetica ?st3"
  let ?st5 = "?st4\<lparr>st_y := fsub (st_y ?st4) lh\<rparr>"
  let ?st6 = "para lib question margin fsBody Helvetica ?st5"
  let ?st7 = "para lib reportText margin fsBody Helvetica ?st6"
  have w2: "st_width ?st2 = page_width lib"
    by (simp add: draw_def pdf_initial_def)
  have w3: "st_width ?st3 = page_width lib" using w2 by (rule width_para)
  have w4: "st_width ?st4 = page_width lib" using w3 by (rule width_para)
  have w5: "st_width ?st5 = page_width lib" using w4 by simp
  have w6: "st_width ?st6 = page_width lib" using w5 by (rule width_para)
  have b: "buildPdfBufferStructured lib fullName ts question reportText = ?st7"
    by (simp add: buildPdfBufferStructured_def pdf_header_def Let_def)
  note c2 = continues_gap [of lib margin fsBody Helvetica ?st1 "fmul fsTitle d1_4"]
  note c3 = continues_trans [OF c2 rows_of_para [OF w2]]
  note c4 = continues_trans [OF c3 rows_of_para [OF w3]]
  note c5 = continues_trans [OF c4 continues_gap [of lib margin fsBody Helvetica ?st4 lh]]
  note c6 = continues_trans [OF c5 rows_of_para [OF w5]]
  note c7 = continues_trans [OF c6 rows_of_para [OF w6]]
  from c7 show ?thesis
    unfolding b spec_content_def by simp
qed

lemma drawn_build:
  "drawn (buildPdfBufferStructured lib fullName ts question reportText)
     = str ''ECM Assistant Report''
       # rows_of lib (str ''Prepared for: '' @ or_default fullName (str ''N/A''))
       @ rows_of lib (str ''Timestamp (UK): '' @ ts)
       @ rows_of lib question
       @ rows_of lib reportText"
proof -
  let ?st1 = "draw (str ''ECM Assistant Report'') margin (st_y (pdf_initial lib)) fsTitle
                HelveticaBold (pdf_initial lib)"
  let ?st2 = "?st1\<lparr>st_y := fsub (st_y ?st1) (fmul fsTitle d1_4)\<rparr>"
  let ?st3 = "para lib (str ''Prepared for: '' @ or_default fullName (str ''N/A''))
                margin fsBody Helvetica ?st2"
  let ?st4 = "para lib (str ''Timestamp (UK): '' @ ts) margin fsBody Helvetica ?st3"
  let ?st5 = "?st4\<lparr>st_y := fsub (st_y ?st4) lh\<rparr>"
  let ?st6 = "para lib question margin fsBody Helvetica ?st5"
  have w2: "st_width ?st2 = page_width lib"
    by (simp add: draw_def pdf_initial_def)
  have w3: "st_width ?st3 = page_width lib" using w2 by (rule width_para)
  have w4: "st_width ?st4 = page_width lib" using w3 by (rule width_para)
  have w5: "st_width ?st5 = page_width lib" using w4 by simp
  have w6: "st_width ?st6 = page_width lib" using w5 by (rule width_para)
  have d0: "drawn (pdf_initial lib) = []"
    by (simp add: drawn_def pages_def pdf_initial_def)
  have d1: "drawn ?st1 = [str ''ECM Assistant Report'']"
    unfolding drawn_draw d0 by simp
  show ?thesis
    unfolding buildPdfBufferStructured_def pdf_header_def Let_def
      drawn_rows_of [OF w6] drawn_rows_of [OF w5] drawn_y_update
      drawn_rows_of [OF w3] drawn_rows_of [OF w2] d1
    by simp
qed

lemma build_placements:
  "placements (buildPdfBufferStructured lib fullName ts question reportText)
     = (0, title_op lib)
       # spec_place lib margin fsBody Helvetica 0 (fsub (page_height lib) margin)
           (spec_content lib fullName ts question reportText)"
  using build_continues [of lib fullName ts question reportText]
  by (simp add: continues_def placements_def pages_def draw_def pdf_initial_def title_op_def)

lemma build_page_count:
  "length (pages (buildPdfBufferStructured lib fullName ts question reportText))
     = Suc (fst (spec_cursor lib 0 (fsub (page_height lib) margin)
                   (spec_content lib fullName ts question reportText)))"
proof -
  have "(length (earlier (buildPdfBufferStructured lib fullName ts question reportText)),
         st_y (buildPdfBufferStructured lib fullName ts question reportText))
      = spec_cursor lib 0 (fsub (page_height lib) margin)
          (spec_content lib fullName ts question reportText)"
    using build_continues [of lib fullName ts question reportText]
    by (simp add: continues_def draw_def pdf_initial_def)
  then have "length (earlier (buildPdfBufferStructured lib fullName ts question reportText))
      = fst (spec_cursor lib 0 (fsub (page_height lib) margin)
          (spec_content lib fullName ts question reportText))"
    by (metis fst_conv)
  then show ?thesis by (simp add: pages_def)
qed

text \<open>
  Claim C2. The renderer places its rows as the layout rule of the specification says: a
  row starts a new page exactly when the cursor minus the line height is below the bottom
  margin, and is then drawn with the cursor reset to the top margin. This holds for the
  rows of one \<open>para\<close> from any state and for the whole document, whose pages hold the title
  and then the placements of the rule for its content, on as many pages as the rule
  counts. The texts drawn on all pages, in order, are the title followed by the rows of
  wrapping each text once: no row is dropped or duplicated at a page boundary.
\<close>

theorem pagination_complete:
  "placements (para lib t x sz fnt st)
     = placements st
       @ spec_place lib x sz fnt (length (pages st) - 1) (st_y st)
           (map Row (wrap (widthOfTextAtSize lib) (sanitizeForPdf t) x
                       (fsub (fsub (st_width st) x) margin) sz fnt))
   \<and> placements (buildPdfBufferStructured lib fullName ts question reportText)
     = (0, title_op lib)
       # spec_place lib margin fsBody Helvetica 0 (fsub (page_height lib) margin)
           (spec_content lib fullName ts question reportText)
   \<and> length (pages (buildPdfBufferStructured lib fullName ts question reportText))
     = Suc (fst (spec_cursor lib 0 (fsub (page_height lib) margin)
                   (spec_content lib fullName ts question reportText)))
   \<and> drawn (buildPdfBufferStructured lib fullName ts question reportText)
     = str ''ECM Assistant Report''
       # rows_of lib (str ''Prepared for: '' @ or_default fullName (str ''N/A''))
       @ rows_of lib (str ''Timestamp (UK): '' @ ts)
       @ rows_of lib question
       @ rows_of lib reportText"
proof (intro conjI)
  show "placements (para lib t x sz fnt st)
     = placements st
       @ spec_place lib x sz fnt (length (pages st) - 1) (st_y st)
           (map Row (wrap (widthOfTextAtSize lib) (sanitizeForPdf t) x
                       (fsub (fsub (st_width st) x) margin) sz fnt))"
    using continues_para [of lib x sz fnt st t] by (simp add: continues_def pages_def)
  show "placements (buildPdfBufferStructured lib fullName ts question reportText)
     = (0, title_op lib)
       # spec_place lib margin fsBody Helvetica 0 (fsub (page_height lib) margin)
           (spec_content lib fullName ts question reportText)"
    by (rule build_placements)
  show "length (pages (buildPdfBufferStructured lib fullName ts question reportText))
     = Suc (fst (spec_cursor lib 0 (fsub (page_height lib) margin)
                   (spec_content lib fullName ts question reportText)))"
    by (rule build_page_count)
  show "drawn (buildPdfBufferStructured lib fullName ts question reportText)
     = str ''ECM Assistant Report''
       # rows_of lib (str ''Prepared for: '' @ or_default fullName (str ''N/A''))
       @ rows_of lib (str ''Timestamp (UK): '' @ ts)
       @ rows_of lib question
       @ rows_of lib reportText"
    by (rule drawn_build)
qed

lemmas wrap_eval = rows_of_def printable_width_def sanitizeForPdf_def trim_def trim_end_def
  pdf_safe_def wrap_def wrap_step_def split_ws_def str_def is_ws_def half_em_def small_page_def
  fsBody_def margin_def or_default_def five_rows_def

lemma small_rows:
  "rows_of small_page (str ''Prepared for: '' @ or_default None (str ''N/A''))
     = [str ''Prepared for: N/A'']"
  "rows_of small_page (str ''Timestamp (UK): '' @ str ''T'') = [str ''Timestamp (UK): T'']"
  "rows_of small_page (str ''why'') = [str ''why'']"
  "rows_of small_page five_rows
     = [str ''aaaaaaaaaa'', str ''bbbbbbbbbb'', str ''cccccccccc'', str ''dddddddddd'',
        str ''eeeeeeeeee'']"
  by (simp_all add: wrap_eval fl_eval)

lemma small_content:
  "spec_content small_page None (str ''T'') (str ''why'') five_rows
     = [Gap (3152519739159347 / 140737488355328),
        Row (str ''Prepared for: N/A''), Row (str ''Timestamp (UK): T''),
        Gap (2167357320672051 / 140737488355328),
        Row (str ''why''),
        Row (str ''aaaaaaaaaa''), Row (str ''bbbbbbbbbb''), Row (str ''cccccccccc''),
        Row (str ''dddddddddd''), Row (str ''eeeeeeeeee'')]"
  unfolding spec_content_def small_rows lh_value title_advance_value by simp

lemma small_place:
  "map (\<lambda>(p, d). (p, op_y d))
     (spec_place small_page margin fsBody Helvetica 0 (fsub (page_height small_page) margin)
       (spec_content small_page None (str ''T'') (str ''why'') five_rows))
   = [(0, 3680285320491827 / 35184372088832), (0, 1569222995161907 / 17592186044416),
      (1, 127), (1, 3926575925113651 / 35184372088832), (1, 1692368297472819 / 17592186044416),
      (1, 2842897264777625 / 35184372088832), (2, 127), (2, 3926575925113651 / 35184372088832)]"
  unfolding small_content
  by (simp add: lh_value small_page_def margin_def fl_eval)


lemma small_cursor:
  "fst (spec_cursor small_page 0 (fsub (page_height small_page) margin)
       (spec_content small_page None (str ''T'') (str ''why'') five_rows)) = 2"
  unfolding small_content
  by (simp add: lh_value small_page_def margin_def fl_eval)

theorem pagination_complete_witness:
  "map fst (placements (buildPdfBufferStructured small_page None (str ''T'') (str ''why'') five_rows))
     = [0, 0, 0, 1, 1, 1, 1, 2, 2]
   \<and> map (op_y \<circ> snd)
       (placements (buildPdfBufferStructured small_page None (str ''T'') (str ''why'') five_rows))
     = [127, 3680285320491827 / 35184372088832, 1569222995161907 / 17592186044416,
        127, 3926575925113651 / 35184372088832, 1692368297472819 / 17592186044416,
        2842897264777625 / 35184372088832, 127, 3926575925113651 / 35184372088832]
   \<and> length (pages (buildPdfBufferStructured small_page None (str ''T'') (str ''why'') five_rows))
     = 3
   \<and> drawn (buildPdfBufferStructured small_page None (str ''T'') (str ''why'') five_rows)
     = [str ''ECM Assistant Report'', str ''Prepared for: N/A'', str ''Timestamp (UK): T'',
        str ''why'', str ''aaaaaaaaaa'', str ''bbbbbbbbbb'', str ''cccccccccc'',
        str ''dddddddddd'', str ''eeeeeeeeee'']"
proof -
  have t: "op_y (title_op small_page) = 127"
    by (simp add: title_op_def small_page_def margin_def fl_eval)
  have p: "map fst
     (spec_place small_page margin fsBody Helvetica 0 (fsub (page_height small_page) margin)
       (spec_content small_page None (str ''T'') (str ''why'') five_rows))
     = [0, 0, 1, 1, 1, 1, 2, 2]"
    "map (op_y \<circ> snd)
     (spec_place small_page margin fsBody Helvetica 0 (fsub (page_height small_page) margin)
       (spec_content small_page None (str ''T'') (str ''why'') five_rows))
     = [3680285320491827 / 35184372088832, 1569222995161907 / 17592186044416,
        127, 3926575925113651 / 35184372088832, 1692368297472819 / 17592186044416,
        2842897264777625 / 35184372088832, 127, 3926575925113651 / 35184372088832]"
    using small_place [THEN arg_cong, of "map fst"] small_place [THEN arg_cong, of "map snd"]
    by (simp_all add: comp_def case_prod_beta)
  from pagination_complete [of small_page "[]" margin fsBody Helvetica "pdf_initial small_page"
      None "str ''T''" "str ''why''" five_rows]
  show ?thesis
    unfolding small_rows by (simp add: p t small_cursor)
qed


section \<open>Classification\<close>

lemma delim_not_digit: "is_delim c \<Longrightarrow> \<not> is_digit c"
  by (auto simp: is_delim_def is_digit_def is_ws_def)

lemma re_heading_iff:
  "re_heading t \<longleftrightarrow>
     (\<exists>ds c rest. t = ds @ c # rest \<and> ds \<noteq> [] \<and> list_all is_digit ds \<and> is_delim c)"
proof
  assume h: "re_heading t"
  let ?ds = "takeWhile is_digit t"
  from h obtain c rest where d: "dropWhile is_digit t = c # rest" and c: "is_delim c"
    and t: "t \<noteq> []" "is_digit (hd t)"
    by (auto simp: re_heading_def split: list.splits)
  have "t = ?ds @ c # rest" using d by (metis takeWhile_dropWhile_id)
  moreover have "?ds \<noteq> []" using t by (cases t) simp_all
  moreover have "list_all is_digit ?ds"
    by (simp add: list_all_iff) (meson set_takeWhileD)
  ultimately show "\<exists>ds c rest. t = ds @ c # rest \<and> ds \<noteq> [] \<and> list_all is_digit ds \<and> is_delim c"
    using c by blast
next
  assume "\<exists>ds c rest. t = ds @ c # rest \<and> ds \<noteq> [] \<and> list_all is_digit ds \<and> is_delim c"
  then obtain ds c rest where t: "t = ds @ c # rest" and ds: "ds \<noteq> []" "list_all is_digit ds"
    and c: "is_delim c" by blast
  have "dropWhile is_digit t = c # rest"
    using t ds c by (simp add: list_all_iff dropWhile_append2 delim_not_digit)
  moreover have "is_digit (hd t)" using t ds by (cases ds) simp_all
  ultimately show "re_heading t" using t ds c by (simp add: re_heading_def)
qed

lemma heading_not_footer: "re_heading t \<Longrightarrow> \<not> startsWith t footer_marker"
  by (cases t) (auto simp: re_heading_def startsWith_def footer_marker_def str_def is_digit_def)

text \<open>
  Claim C4, amended. A trimmed line that begins with one or more digits followed by a
  closing parenthesis, a full stop or whitespace is given the role Heading, and the text of
  its paragraph is the whole trimmed line, the numeric marker included.
\<close>

theorem heading_keeps_line:
  assumes "trim raw = ds @ c # rest" and "ds \<noteq> []" and "list_all is_digit ds"
    and "c = 41 \<or> c = 46 \<or> is_ws c"
  shows "classify (trim raw) = (Heading, trim raw)
     \<and> body_paragraphs (raw # others) = block Heading (trim raw) # body_paragraphs others"
proof -
  have h: "re_heading (trim raw)"
    unfolding re_heading_iff using assms by (auto simp: is_delim_def)
  then have "trim raw \<noteq> []" by (auto simp: re_heading_def)
  with h heading_not_footer [OF h] show ?thesis
    by (simp add: classify_def Let_def)
qed

theorem heading_keeps_line_witness:
  "classify (trim (str '' 12) Scope '')) = (Heading, str ''12) Scope'')
   \<and> body_paragraphs [str '' 12) Scope '']
     = [Paragraph \<lparr>children = [\<lparr>tr_text = str ''12) Scope'', tr_bold = True, tr_italics = False,
            tr_size = 28\<rparr>],
          alignment = None, spacing_before = Some 200, spacing_after = Some 120, indent = None\<rparr>]"
proof -
  have t: "trim (str '' 12) Scope '') = str ''12'' @ 41 # str '' Scope''"
    by (simp add: trim_def trim_end_def str_def is_ws_def)
  have "str ''12'' \<noteq> []" "list_all is_digit (str ''12'')" "(41::nat) = 41 \<or> (41::nat) = 46 \<or> is_ws 41"
    by (simp_all add: str_def is_digit_def)
  from heading_keeps_line [OF t this, of "[]"] t show ?thesis
    by (simp add: str_def)
qed

text \<open>
  Claim C4, as stated, fails: the heading \<open>"1. Query"\<close> keeps its numeric marker; the text
  of its paragraph is not the remainder \<open>"Query"\<close> (nor \<open>" Query"\<close>).
\<close>

theorem heading_text_counterexample:
  "classify (str ''1. Query'') = (Heading, str ''1. Query'')
   \<and> snd (classify (str ''1. Query'')) \<noteq> str ''Query''
   \<and> snd (classify (str ''1. Query'')) \<noteq> str '' Query''
   \<and> body_paragraphs [str ''1. Query''] = [block Heading (str ''1. Query'')]"
  by (simp add: classify_def re_heading_def is_digit_def is_delim_def str_def
        trim_def trim_end_def is_ws_def startsWith_def footer_marker_def)


section \<open>Classifying a classified text again\<close>

lemma trim_end_idem: "trim_end (trim_end s) = trim_end s"
  by (induction s) (simp_all add: trim_end_Cons)

lemma glyph_facts: "is_glyph g \<Longrightarrow> \<not> is_ws g \<and> \<not> is_digit g \<and> \<not> is_upper g"
  by (auto simp: is_glyph_def is_ws_def is_digit_def is_upper_def)

lemma re_label_glyph:
  "is_glyph g \<Longrightarrow> re_label (g # t0)
     = (let s = dropWhile is_ws t0 in
        s \<noteq> [] \<and> is_upper (hd s)
        \<and> (let r = trim_end (tl s) in
             r \<noteq> [] \<and> last r = 58 \<and> list_all (\<lambda>c. \<not> is_lt c) (butlast r)))"
  by (simp add: re_label_def)

lemma bullet_text:
  assumes g: "is_glyph g"
  shows "trim (replace_glyph (g # t0) [8226, 32])
           = (if dropWhile is_ws t0 = [] then [8226]
              else 8226 # 32 # trim_end (dropWhile is_ws t0))"
proof -
  have b: "\<not> is_ws 8226" "is_ws 32" by (simp_all add: is_ws_def)
  let ?r = "dropWhile is_ws t0"
  have "trim (replace_glyph (g # t0) [8226, 32]) = trim_end (8226 # 32 # ?r)"
    using g b by (simp add: replace_glyph_def re_bullet_def trim_def)
  also have "\<dots> = (if ?r = [] then [8226] else 8226 # 32 # trim_end ?r)"
  proof (cases "?r = []")
    case True
    show ?thesis unfolding True using b by (simp add: trim_end_Cons)
  next
    case False
    then have "\<not> is_ws (hd ?r)" by (rule hd_dropWhile)
    with False have "trim_end ?r \<noteq> []" by (simp add: trim_end_hd)
    with False b show ?thesis by (simp add: trim_end_Cons)
  qed
  finally show ?thesis .
qed

lemma classify_bullet_fixed:
  assumes "classify t = (Bullet, txt)"
  shows "classify txt = (Bullet, txt)"
proof -
  from assms have nl: "\<not> re_label t" and bl: "re_bullet t"
    and tx0: "txt = trim (replace_glyph t [8226, 32])"
    by (auto simp: classify_def split: if_splits)
  from bl obtain g t0 where t: "t = g # t0" and g: "is_glyph g"
    by (cases t) (auto simp: re_bullet_def)
  have b: "is_glyph 8226" "\<not> is_ws 8226" "is_ws 32" "\<not> is_digit 8226" "\<not> is_upper 8226"
    by (simp_all add: is_glyph_def is_ws_def is_digit_def is_upper_def)
  let ?r = "dropWhile is_ws t0"
  show ?thesis
  proof (cases "?r = []")
    case True
    then have "txt = [8226]" using tx0 t g by (simp add: bullet_text)
    then show ?thesis
      using b by (simp add: classify_def re_heading_def re_label_def re_bullet_def
          replace_glyph_def trim_def trim_end_Cons)
  next
    case False
    let ?r' = "trim_end ?r"
    have hd_r: "\<not> is_ws (hd ?r)" using False by (rule hd_dropWhile)
    have r': "?r' = hd ?r # trim_end (tl ?r)"
      using False hd_r by (rule trim_end_hd)
    have tx: "txt = 8226 # 32 # ?r'" using tx0 t g False by (simp add: bullet_text)
    have dw: "dropWhile is_ws (32 # ?r') = ?r'"
      using b r' hd_r by simp
    have "re_label txt = re_label t"
      unfolding tx t re_label_glyph [OF b(1)] re_label_glyph [OF g] dw
      using r' False by (simp add: trim_end_idem Let_def)
    with nl have nl': "\<not> re_label txt" by simp
    have "trim (replace_glyph txt [8226, 32]) = 8226 # 32 # trim_end ?r'"
      unfolding tx bullet_text [OF b(1)] dw using r' by simp
    then have "trim (replace_glyph txt [8226, 32]) = txt"
      using tx by (simp add: trim_end_idem)
    moreover have "\<not> re_heading txt" "\<not> re_subheading txt" "re_bullet txt"
      using tx b by (simp_all add: re_heading_def re_bullet_def)
    ultimately show ?thesis using nl' by (simp add: classify_def)
  qed
qed

lemma classify_heading_fixed:
  assumes "classify t = (Heading, txt)"
  shows "classify txt = (Heading, txt)"
  using assms by (auto simp: classify_def split: if_splits)

text \<open>
  Claim C6, amended. When a line is classified as Heading or as Bullet, classifying the
  text of its paragraph again gives the same role and the same text: nothing more is
  stripped, although the marker pattern does match again. (For SubHeading and Label the
  text can match a marker pattern again and lose a second marker.)
\<close>

theorem reclassify_fixed:
  assumes "classify t = (r, txt)" and "r = Heading \<or> r = Bullet"
  shows "classify txt = (r, txt)"
  using assms classify_heading_fixed classify_bullet_fixed by blast

theorem reclassify_fixed_witness:
  "classify (str ''-   item one'') = (Bullet, [8226, 32] @ str ''item one'')
   \<and> classify ([8226, 32] @ str ''item one'') = (Bullet, [8226, 32] @ str ''item one'')"
proof -
  have c: "classify (str ''-   item one'') = (Bullet, [8226, 32] @ str ''item one'')"
    by (simp add: classify_def re_heading_def re_label_def re_bullet_def replace_glyph_def
        is_digit_def is_upper_def is_glyph_def trim_def trim_end_def str_def is_ws_def)
  from reclassify_fixed [OF c] c show ?thesis by simp
qed

text \<open>
  Claim C6, as stated, fails: \<open>"A. B. x"\<close> is a SubHeading with the text \<open>"B. x"\<close>, which
  matches the sub-heading pattern again and is stripped a second time, to \<open>"x"\<close>.
\<close>

theorem reclassify_counterexample:
  "classify (str ''A. B. x'') = (SubHeading, str ''B. x'')
   \<and> classify (str ''B. x'') = (SubHeading, str ''x'')
   \<and> re_subheading (snd (classify (str ''A. B. x'')))"
  by (simp add: classify_def re_heading_def strip_letter_def
        is_digit_def is_upper_def is_delim_def trim_def trim_end_def str_def is_ws_def)


text \<open>A Label whose text is a sub-heading: it loses a second marker when classified again.\<close>

lemma reclassify_label_example:
  "classify (str ''- A plan:'') = (Label, str ''A plan:'')
   \<and> classify (str ''A plan:'') = (SubHeading, str ''plan:'')"
  by (simp add: classify_def re_heading_def re_label_def re_bullet_def replace_glyph_def
      strip_letter_def is_digit_def is_upper_def is_delim_def is_glyph_def is_lt_def
      trim_def trim_end_def str_def is_ws_def)

section \<open>The footer in the two documents\<close>

lemma marker_facts:
  "footer_marker \<noteq> []" "\<not> is_ws (hd footer_marker)" "\<not> is_ws (last footer_marker)"
  "filter pdf_safe footer_marker = footer_marker"
  by (simp_all add: footer_marker_def str_def is_ws_def pdf_safe_def)

lemma body_paragraphs_map:
  "body_paragraphs ls
     = map (\<lambda>raw. if trim raw = [] then ParagraphText []
                   else block (fst (classify (trim raw))) (snd (classify (trim raw))))
         (takeWhile (\<lambda>raw. \<not> startsWith (trim raw) footer_marker) ls)"
proof (induction ls)
  case Nil
  show ?case by simp
next
  case (Cons raw ls)
  have "\<not> startsWith [] footer_marker"
    using marker_facts(1) by (simp add: startsWith_def)
  with Cons show ?case
    by (auto simp: Let_def split: prod.splits)
qed

lemma block_not_italic: "\<not> is_italic (block r s)"
  by (cases r) simp_all

lemma body_not_italic: "filter is_italic (body_paragraphs ls) = []"
  by (induction ls) (auto simp: Let_def block_not_italic split: prod.splits)

lemma italic_paragraphs:
  "filter is_italic (docParagraphs ts reportText ft) = [footer_paragraph ft]"
  by (simp add: docParagraphs_def body_not_italic title_paragraph_def generated_paragraph_def
      footer_paragraph_def)

lemma dropWhile_keeps:
  assumes "m \<noteq> []" and "\<not> P (hd m)"
  shows "\<exists>a'. dropWhile P (a @ m @ b) = a' @ m @ b"
proof (cases "\<forall>c \<in> set a. P c")
  case True
  then have "dropWhile P (a @ m @ b) = dropWhile P (m @ b)"
    by (simp add: dropWhile_append2)
  also have "\<dots> = m @ b" using assms by (cases m) simp_all
  finally show ?thesis by (metis append_Nil)
next
  case False
  then have "dropWhile P (a @ m @ b) = dropWhile P a @ m @ b"
    by (auto simp: dropWhile_append1)
  then show ?thesis by blast
qed

lemma trim_keeps:
  assumes "m \<noteq> []" and "\<not> is_ws (hd m)" and "\<not> is_ws (last m)"
  shows "\<exists>a' b'. trim (a @ m @ b) = a' @ m @ b'"
proof -
  obtain a' where a': "dropWhile is_ws (a @ m @ b) = a' @ m @ b"
    using dropWhile_keeps [where P = is_ws, OF assms(1,2)] by blast
  have "rev m \<noteq> []" "\<not> is_ws (hd (rev m))"
    using assms by (simp_all add: hd_rev)
  from dropWhile_keeps [where P = is_ws, OF this, of "rev b" "rev a'"]
  obtain b' where "dropWhile is_ws (rev b @ rev m @ rev a') = b' @ rev m @ rev a'"
    by blast
  then have "trim (a @ m @ b) = a' @ m @ rev b'"
    by (simp add: trim_def trim_end_def a')
  then show ?thesis by blast
qed

lemma sanitize_keeps_marker:
  assumes "sublist footer_marker reportText"
  shows "sublist footer_marker (sanitizeForPdf reportText)"
proof -
  from assms obtain a b where "reportText = a @ footer_marker @ b"
    by (auto simp: sublist_def)
  then have "filter pdf_safe reportText = filter pdf_safe a @ footer_marker @ filter pdf_safe b"
    by (simp add: marker_facts)
  with trim_keeps [OF marker_facts(1-3)] show ?thesis
    unfolding sanitizeForPdf_def sublist_def by metis
qed

lemma rows_of_tokens: "join_sp (rows_of lib t) = join_sp (spec_tokens (sanitizeForPdf t))"
proof -
  have "trim (filter pdf_safe t) = [] \<or> \<not> is_ws (last (trim (filter pdf_safe t)))"
    using trim_trimmed [of "filter pdf_safe t"] by blast
  then show ?thesis
    unfolding rows_of_def sanitizeForPdf_def by (rule wrap_join_tokens)
qed

text \<open>
  Claim C3, amended. The flowable document of the handler holds the title, the timestamp,
  the paragraphs of the lines before the first line that begins with the footer marker
  (that line and all after it are not consumed), and then one footer paragraph made by the
  system, in italics and the only one so, whose text is the template with the \<open>Reg. No.\<close>
  line of the system. The fixed-layout renderer does not cut the report: it draws the rows
  of the whole sanitized report, whose tokens all appear in order, and the marker phrase
  of a report survives the sanitizer. (The two bodies differ by more than the footer tail:
  the flowable one strips markers line by line, the fixed-layout one drops the characters
  that the sanitizer deletes.)
\<close>

theorem footer_asymmetry:
  "handler_document w reportText
     = [title_paragraph, generated_paragraph (ts_iso w)]
       @ map (\<lambda>raw. if trim raw = [] then ParagraphText []
                     else block (fst (classify (trim raw))) (snd (classify (trim raw))))
           (takeWhile (\<lambda>raw. \<not> startsWith (trim raw) footer_marker) (report_lines reportText))
       @ [Paragraph
            \<lparr>children =
               [\<lparr>tr_text = footerText_before_reg
                    @ reg_line (regRand (docx_now w) (docx_random w))
                        (case globalIndex w of None \<Rightarrow> 0 | Some index \<Rightarrow> length index)
                    @ footer_after_reg,
                  tr_bold = False, tr_italics = True, tr_size = 20\<rparr>],
             alignment = Some Left, spacing_before = Some 240, spacing_after = None,
             indent = None\<rparr>]
   \<and> filter is_italic (handler_document w reportText)
     = [Paragraph
            \<lparr>children =
               [\<lparr>tr_text = footerText_before_reg
                    @ reg_line (regRand (docx_now w) (docx_random w))
                        (case globalIndex w of None \<Rightarrow> 0 | Some index \<Rightarrow> length index)
                    @ footer_after_reg,
                  tr_bold = False, tr_italics = True, tr_size = 20\<rparr>],
             alignment = Some Left, spacing_before = Some 240, spacing_after = None,
             indent = None\<rparr>]
   \<and> drawn (buildPdfBufferStructured lib fullName ts question reportText)
     = str ''ECM Assistant Report''
       # rows_of lib (str ''Prepared for: '' @ or_default fullName (str ''N/A''))
       @ rows_of lib (str ''Timestamp (UK): '' @ ts)
       @ rows_of lib question
       @ rows_of lib reportText
   \<and> join_sp (rows_of lib reportText) = join_sp (spec_tokens (sanitizeForPdf reportText))
   \<and> (sublist footer_marker reportText
         \<longrightarrow> sublist footer_marker (sanitizeForPdf reportText))"
proof (intro conjI impI)
  show "handler_document w reportText
     = [title_paragraph, generated_paragraph (ts_iso w)]
       @ map (\<lambda>raw. if trim raw = [] then ParagraphText []
                     else block (fst (classify (trim raw))) (snd (classify (trim raw))))
           (takeWhile (\<lambda>raw. \<not> startsWith (trim raw) footer_marker) (report_lines reportText))
       @ [Paragraph
            \<lparr>children =
               [\<lparr>tr_text = footerText_before_reg
                    @ reg_line (regRand (docx_now w) (docx_random w))
                        (case globalIndex w of None \<Rightarrow> 0 | Some index \<Rightarrow> length index)
                    @ footer_after_reg,
                  tr_bold = False, tr_italics = True, tr_size = 20\<rparr>],
             alignment = Some Left, spacing_before = Some 240, spacing_after = None,
             indent = None\<rparr>]"
    unfolding handler_document_def docParagraphs_def body_paragraphs_map
    by (simp add: footer_paragraph_def footerText_def)
  show "filter is_italic (handler_document w reportText)
     = [Paragraph
            \<lparr>children =
               [\<lparr>tr_text = footerText_before_reg
                    @ reg_line (regRand (docx_now w) (docx_random w))
                        (case globalIndex w of None \<Rightarrow> 0 | Some index \<Rightarrow> length index)
                    @ footer_after_reg,
                  tr_bold = False, tr_italics = True, tr_size = 20\<rparr>],
             alignment = Some Left, spacing_before = Some 240, spacing_after = None,
             indent = None\<rparr>]"
    unfolding handler_document_def italic_paragraphs
    by (simp add: footer_paragraph_def footerText_def)
  show "drawn (buildPdfBufferStructured lib fullName ts question reportText)
     = str ''ECM Assistant Report''
       # rows_of lib (str ''Prepared for: '' @ or_default fullName (str ''N/A''))
       @ rows_of lib (str ''Timestamp (UK): '' @ ts)
       @ rows_of lib question
       @ rows_of lib reportText"
    by (rule drawn_build)
  show "join_sp (rows_of lib reportText) = join_sp (spec_tokens (sanitizeForPdf reportText))"
    by (rule rows_of_tokens)
  show "sublist footer_marker (sanitizeForPdf reportText)"
    if "sublist footer_marker reportText"
    using that by (rule sanitize_keeps_marker)
qed


lemmas text_eval = trim_def trim_end_def startsWith_def footer_marker_def str_def is_ws_def

lemmas classify_eval = classify_def re_heading_def re_label_def re_bullet_def replace_glyph_def
  strip_letter_def is_digit_def is_upper_def is_delim_def is_glyph_def is_lt_def

lemma sample_reg_line:
  "reg_line (regRand (docx_now sample_world) (docx_random sample_world))
     (case globalIndex sample_world of None \<Rightarrow> 0 | Some index \<Rightarrow> length index)
   = str ''Reg. No. AIVS/UK/251029-3250/5''"
  by (simp add: sample_world_def sample_date_def reg_line_def regRand_def dateSeed_def
      randomPart_def String_int_def String_nat.simps padStart2_def str_def fl_eval)

theorem footer_asymmetry_witness:
  "handler_document sample_world sample_report
     = [title_paragraph, generated_paragraph (str ''2025-10-29T16:15:00.000Z''),
        block Heading (str ''1. Query''), block Body (str ''Body text''),
        Paragraph
          \<lparr>children =
             [\<lparr>tr_text = footerText_before_reg @ str ''Reg. No. AIVS/UK/251029-3250/5''
                  @ footer_after_reg,
                tr_bold = False, tr_italics = True, tr_size = 20\<rparr>],
           alignment = Some Left, spacing_before = Some 240, spacing_after = None,
           indent = None\<rparr>]
   \<and> join_sp (rows_of small_page sample_report)
     = str ''1. Query Body text This report was prepared using the base Reg. No. 1''
   \<and> sublist footer_marker (sanitizeForPdf sample_report)"
proof -
  have l: "report_lines sample_report
     = [str ''1. Query'', str ''Body text'', str ''This report was prepared using the base'',
        str ''Reg. No. 1'']"
    by (simp add: report_lines_def sample_report_def str_def)
  have b: "map (\<lambda>raw. if trim raw = [] then ParagraphText []
                     else block (fst (classify (trim raw))) (snd (classify (trim raw))))
           (takeWhile (\<lambda>raw. \<not> startsWith (trim raw) footer_marker)
              (report_lines sample_report))
     = [block Heading (str ''1. Query''), block Body (str ''Body text'')]"
    unfolding l by (simp add: text_eval classify_eval)
  have s: "sublist footer_marker sample_report"
    unfolding sublist_def sample_report_def footer_marker_def
    by (rule exI [of _ "str ''1. Query'' @ [10] @ str ''Body text'' @ [10, 10]"],
        rule exI [of _ "str '' the base'' @ [10] @ str ''Reg. No. 1''"])
       (simp add: str_def)
  have t: "join_sp (spec_tokens (sanitizeForPdf sample_report))
     = str ''1. Query Body text This report was prepared using the base Reg. No. 1''"
    by (simp add: sample_report_def sanitizeForPdf_def pdf_safe_def spec_tokens_def
        split_ws_def text_eval)
  have g: "ts_iso sample_world = str ''2025-10-29T16:15:00.000Z''"
    by (simp add: sample_world_def)
  from footer_asymmetry [of sample_world sample_report small_page None "str ''T''"
      "str ''why''"] s
  show ?thesis
    unfolding b t g sample_reg_line by simp
qed

text \<open>
  Claim C3, as stated, fails in its last clause: for a report with the lines \<open>"A. Scope"\<close>,
  the footer line and \<open>"\<copyright> tail"\<close>, the flowable body is the sub-heading \<open>"Scope"\<close>, while
  the fixed-layout text is \<open>"A. Scope This report was prepared using X tail"\<close>. That is
  not the flowable body followed by the raw tail: it keeps the marker \<open>"A. "\<close> and has
  lost the copyright sign of the tail.
\<close>

theorem footer_tail_counterexample:
  "body_paragraphs (report_lines tail_report) = [block SubHeading (str ''Scope'')]
   \<and> join_sp (rows_of small_page tail_report)
     = str ''A. Scope This report was prepared using X tail''
   \<and> join_sp (rows_of small_page tail_report)
     \<noteq> str ''Scope'' @ [32] @ str ''This report was prepared using X'' @ [32, 169]
         @ str '' tail''
   \<and> 169 \<in> set tail_report
   \<and> 169 \<notin> set (join_sp (rows_of small_page tail_report))"
proof -
  have b: "body_paragraphs (report_lines tail_report) = [block SubHeading (str ''Scope'')]"
    by (simp add: report_lines_def tail_report_def text_eval classify_eval)
  have r: "join_sp (rows_of small_page tail_report)
     = str ''A. Scope This report was prepared using X tail''"
    unfolding rows_of_tokens
    by (simp add: tail_report_def sanitizeForPdf_def pdf_safe_def spec_tokens_def
        split_ws_def text_eval)
  show ?thesis
    unfolding b r by (simp add: tail_report_def str_def)
qed


section \<open>The empty report\<close>

lemma sanitize_empty: "sanitizeForPdf [] = []"
  by (simp add: sanitizeForPdf_def trim_def trim_end_def)

lemma wrap_empty: "wrap wid [] x maxWidth sz fnt = [[]]"
  by (simp add: wrap_def split_ws_def wrap_step_cases)

text \<open>
  Claim C8, amended. For an empty report both documents are built, without error. The
  flowable document has four paragraphs: the title, the timestamp, one empty paragraph (the
  empty string splits into one empty line) and the footer of the system; none carries text
  of the report. The fixed-layout document gets the title, the metadata lines, the question
  and one empty row.
\<close>

theorem empty_report_documents:
  "docParagraphs ts [] ft
     = [title_paragraph, generated_paragraph ts, ParagraphText [], footer_paragraph ft]
   \<and> drawn (buildPdfBufferStructured lib fullName ts q [])
     = str ''ECM Assistant Report''
       # rows_of lib (str ''Prepared for: '' @ or_default fullName (str ''N/A''))
       @ rows_of lib (str ''Timestamp (UK): '' @ ts)
       @ rows_of lib q
       @ [[]]"
proof
  show "docParagraphs ts [] ft
     = [title_paragraph, generated_paragraph ts, ParagraphText [], footer_paragraph ft]"
    by (simp add: docParagraphs_def report_lines_def trim_def trim_end_def)
  show "drawn (buildPdfBufferStructured lib fullName ts q [])
     = str ''ECM Assistant Report''
       # rows_of lib (str ''Prepared for: '' @ or_default fullName (str ''N/A''))
       @ rows_of lib (str ''Timestamp (UK): '' @ ts)
       @ rows_of lib q
       @ [[]]"
    unfolding drawn_build rows_of_def sanitize_empty wrap_empty by simp
qed

theorem empty_report_documents_witness:
  "docParagraphs (ts_iso sample_world) []
       (footerText (docx_now sample_world) (docx_random sample_world) (globalIndex sample_world))
     = [title_paragraph, generated_paragraph (ts_iso sample_world), ParagraphText [],
        footer_paragraph (footerText (docx_now sample_world) (docx_random sample_world)
          (globalIndex sample_world))]
   \<and> drawn (buildPdfBufferStructured small_page None (str ''T'') (str ''why'') [])
     = [str ''ECM Assistant Report'', str ''Prepared for: N/A'', str ''Timestamp (UK): T'',
        str ''why'', []]"
  using empty_report_documents [of "ts_iso sample_world"
      "footerText (docx_now sample_world) (docx_random sample_world) (globalIndex sample_world)"
      small_page None "str ''why''"]
    empty_report_documents [of "str ''T''" "[]" small_page None "str ''why''"]
  by (simp add: wrap_eval fl_eval)

text \<open>
  Claim C8, as stated, fails: for the empty report the flowable document is not only
  title, timestamp and footer; it has a fourth paragraph, the empty one, in third place.
\<close>

theorem empty_report_counterexample:
  "docParagraphs (ts_iso sample_world) []
       (footerText (docx_now sample_world) (docx_random sample_world) (globalIndex sample_world))
     \<noteq> [title_paragraph, generated_paragraph (ts_iso sample_world),
        footer_paragraph (footerText (docx_now sample_world) (docx_random sample_world)
          (globalIndex sample_world))]
   \<and> length (docParagraphs (ts_iso sample_world) []
       (footerText (docx_now sample_world) (docx_random sample_world) (globalIndex sample_world)))
     = 4
   \<and> docParagraphs (ts_iso sample_world) []
       (footerText (docx_now sample_world) (docx_random sample_world) (globalIndex sample_world))
       ! 2 = ParagraphText []"
  by (simp add: docParagraphs_def report_lines_def trim_def trim_end_def)


section \<open>The registration code\<close>

lemma String_nat_small: "n < 10 \<Longrightarrow> String_nat n = [48 + n]"
  by (subst String_nat.simps) simp

lemma String_nat_step: "10 \<le> n \<Longrightarrow> String_nat n = String_nat (n div 10) @ [48 + n mod 10]"
  by (subst String_nat.simps) simp

lemma String_nat_two:
  assumes "10 \<le> n" and "n < 100"
  shows "String_nat n = [48 + n div 10, 48 + n mod 10]"
proof -
  have "n div 10 < 10" using assms by simp
  then show ?thesis using assms by (simp add: String_nat_step String_nat_small)
qed

lemma String_nat_four:
  assumes "1000 \<le> n" and "n < 10000"
  shows "String_nat n = [48 + n div 1000, 48 + n div 100 mod 10, 48 + n div 10 mod 10, 48 + n mod 10]"
proof -
  define a b c where "a = n div 10" and "b = n div 100" and "c = n div 1000"
  have ge: "10 \<le> n" "10 \<le> a" "10 \<le> b" "c < 10"
    using assms by (simp_all add: a_def b_def c_def)
  have d: "a div 10 = b" "b div 10 = c"
    unfolding a_def b_def c_def
    using div_mult2_eq [of n 10 10] div_mult2_eq [of n 100 10] by simp_all
  have "String_nat n = String_nat a @ [48 + n mod 10]"
    unfolding a_def using ge(1) by (rule String_nat_step)
  also have "String_nat a = String_nat b @ [48 + a mod 10]"
    using String_nat_step [OF ge(2)] d by simp
  also have "String_nat b = String_nat c @ [48 + b mod 10]"
    using String_nat_step [OF ge(3)] d by simp
  also have "String_nat c = [48 + c]"
    using ge(4) by (rule String_nat_small)
  finally show ?thesis by (simp add: a_def b_def c_def)
qed

lemma padStart2_two: "n < 100 \<Longrightarrow> padStart2 (String_nat n) = spec_two_digits n"
proof (cases "n < 10")
  case True
  then show ?thesis by (simp add: String_nat_small padStart2_def spec_two_digits_def)
next
  case False
  assume "n < 100"
  with False have "String_nat n = [48 + n div 10, 48 + n mod 10]" "n div 10 < 10"
    by (simp_all add: String_nat_two)
  then show ?thesis by (simp add: padStart2_def spec_two_digits_def)
qed

lemma year_two:
  assumes "1000 \<le> y" and "y \<le> 9999"
  shows "drop 2 (String_int y) = spec_two_digits (nat y mod 100)"
proof -
  have n: "1000 \<le> nat y" "nat y < 10000" using assms by simp_all
  have "nat y mod 100 div 10 = nat y div 10 mod 10"
    using mod_mult2_eq [of "nat y" 10 10] by simp
  then have "nat y mod 100 div 10 mod 10 = nat y div 10 mod 10"
    by simp
  moreover have "nat y mod 100 mod 10 = nat y mod 10"
    by (simp add: mod_mod_cancel)
  ultimately show ?thesis
    using assms by (simp add: String_int_def String_nat_four [OF n] spec_two_digits_def)
qed

lemma dateSeed_digits:
  assumes "1000 \<le> getFullYear now" and "getFullYear now \<le> 9999"
    and "getMonth now \<le> 11" and "getDate now \<le> 31"
  shows "dateSeed now
     = spec_two_digits (nat (getFullYear now) mod 100) @ spec_two_digits (getMonth now + 1)
       @ spec_two_digits (getDate now)"
  using assms by (simp add: dateSeed_def year_two padStart2_two)

lemma generate_from_answer:
  assumes "chat w [(User, prompt_for q (if length (joined r) > 50000 then take 50000 (joined r)
             else joined r))] = Inr content"
  shows "\<exists>fair. generate_from w q r
           = Inr (trim (strip_appendix (trim content)) @ [10, 10]
               @ report_footer fair (regRand (report_now w) (report_random w)) (count r))"
  using assms by (simp add: generate_from_def Let_def) (rule exI, rule refl)

text \<open>
  For a date with a four-digit year the date seed is the two-digit year, the zero-padded
  month and the zero-padded day; the sample date gives \<open>251029\<close>.
\<close>

lemma sample_dateSeed: "dateSeed sample_date = str ''251029''"
  using dateSeed_digits [of sample_date]
  by (simp add: sample_date_def spec_two_digits_def str_def)

lemma sample_randomPart: "randomPart (1 / 2) = 5500" "randomPart (1 / 4) = 3250"
  by (simp_all add: randomPart_def fl_eval)

lemma sample_retrieval:
  "queryFaissIndex (globalIndex sample_world) (loadIndex sample_world) (searchIndex sample_world)
     (str ''What is required?'')
   = \<lparr>joined = str ''one'' @ [10, 10] @ str ''three'' @ [10, 10] @ str ''four'', count = 3\<rparr>"
  by (simp add: queryFaissIndex_def sample_world_def sample_matches_def threshold_value)

lemma sample_report_footer:
  "report_footer (str ''No bias detected'')
     (regRand (report_now sample_world) (report_random sample_world)) 3
   = footer_before_fairness @ str ''No bias detected'' @ [10]
     @ str ''Reg. No. AIVS/UK/251029-5500/3'' @ footer_after_reg"
  by (simp add: report_footer_def reg_line_def regRand_def sample_dateSeed sample_randomPart
      sample_world_def String_int_def String_nat.simps)
     (simp add: str_def)

lemma sample_generate:
  "generateECMAssistant sample_world (str ''What is required?'')
     = Inr (str ''1. Query'' @ [10, 10]
         @ footer_before_fairness @ str ''No bias detected'' @ [10]
         @ str ''Reg. No. AIVS/UK/251029-5500/3'' @ footer_after_reg)"
proof -
  have c: "chat sample_world = sample_chat"
    by (simp add: sample_world_def)
  have t: "trim (strip_appendix (trim (str '' 1. Query ''))) = str ''1. Query''"
    "trim (str ''No bias detected'') = str ''No bias detected''"
    by (simp_all add: appendix_here_def lower_def is_upper_def text_eval)
  show ?thesis
    unfolding generateECMAssistant_def sample_retrieval generate_from_def Let_def c
    by (simp add: sample_chat_def t sample_report_footer)
qed


section \<open>Failures of the collaborators\<close>

lemma generate_ignores_mail:
  "generateECMAssistant (w\<lparr>fetch_mailjet := mailer\<rparr>) q = generateECMAssistant w q"
  by (simp add: generateECMAssistant_def generate_from_def Let_def split: sum.splits)

text \<open>
  Claim C9. When the question is present, the report is generated and both encoders
  succeed, the handler answers with status 200 and the question, the report text and the
  timestamp, whatever the mail request does: a mailer that throws changes nothing in the
  response.
\<close>

theorem mail_failure_swallowed:
  assumes "truthy (body_question req)"
    and "generateECMAssistant w (the (body_question req)) = Inr reportText"
    and "pdf_save w (pages (buildPdfBufferStructured (pdf w) (body_email req) (ts_iso w)
           (the (body_question req)) reportText)) = Inr pdfBuf"
    and "toBuffer w (handler_document w reportText) = Inr docBuf"
  shows "ask (w\<lparr>fetch_mailjet := mailer\<rparr>) req
           = Response 200 (AnswerJson (the (body_question req)) reportText (ts_iso w))"
  using assms
  by (simp add: ask_def Let_def generate_ignores_mail handler_document_def split: sum.splits)

theorem mail_failure_swallowed_witness:
  "fetch_mailjet sample_world
       (mail_message sample_request (ts_iso sample_world)
          (str ''1. Query'' @ [10, 10]
             @ footer_before_fairness @ str ''No bias detected'' @ [10]
             @ str ''Reg. No. AIVS/UK/251029-5500/3'' @ footer_after_reg)
          [37, 80, 68, 70] [80, 75])
     = Inl (Error (str ''connect ECONNREFUSED''))
   \<and> ask sample_world sample_request
     = Response 200 (AnswerJson (str ''What is required?'')
         (str ''1. Query'' @ [10, 10]
            @ footer_before_fairness @ str ''No bias detected'' @ [10]
            @ str ''Reg. No. AIVS/UK/251029-5500/3'' @ footer_after_reg)
         (str ''2025-10-29T16:15:00.000Z''))"
proof -
  let ?report = "str ''1. Query'' @ [10, 10]
     @ footer_before_fairness @ str ''No bias detected'' @ [10]
     @ str ''Reg. No. AIVS/UK/251029-5500/3'' @ footer_after_reg"
  have q: "truthy (body_question sample_request)"
    "the (body_question sample_request) = str ''What is required?''"
    by (simp_all add: sample_request_def truthy_def str_def)
  have g: "generateECMAssistant sample_world (the (body_question sample_request)) = Inr ?report"
    unfolding q by (rule sample_generate)
  have p: "pdf_save sample_world (pages (buildPdfBufferStructured (pdf sample_world)
       (body_email sample_request) (ts_iso sample_world) (the (body_question sample_request))
       ?report))
     = Inr [37, 80, 68, 70]"
    by (simp add: sample_world_def)
  have d: "toBuffer sample_world (handler_document sample_world ?report) = Inr [80, 75]"
    by (simp add: sample_world_def)
  have w: "sample_world\<lparr>fetch_mailjet := fetch_mailjet sample_world\<rparr> = sample_world"
    by simp
  from mail_failure_swallowed [OF q(1) g p d, of "fetch_mailjet sample_world"]
  show ?thesis
    unfolding w q by (simp add: sample_world_def)
qed

text \<open>
  Claim C10. When loading the index or searching it throws, \<open>queryFaissIndex\<close> returns
  the empty text and the count 0, and \<open>generateECMAssistant\<close> goes on from that result: the
  prompt has an empty context and, when the completion answers, the \<open>Reg. No.\<close> line of
  the report's footer carries the item count 0.
\<close>

theorem retrieval_failure_empty_context:
  assumes "(globalIndex w = None \<and> loadIndex w 10000 = Inl e)
     \<or> (\<exists>index. (globalIndex w = Some index
                    \<or> (globalIndex w = None \<and> loadIndex w 10000 = Inr index))
                 \<and> searchIndex w q index = Inl e)"
  shows "queryFaissIndex (globalIndex w) (loadIndex w) (searchIndex w) q
           = \<lparr>joined = [], count = 0\<rparr>
     \<and> generateECMAssistant w q = generate_from w q \<lparr>joined = [], count = 0\<rparr>
     \<and> (chat w [(User, prompt_for q [])] = Inr content
          \<longrightarrow> (\<exists>fair. generateECMAssistant w q
                 = Inr (trim (strip_appendix (trim content)) @ [10, 10]
                     @ report_footer fair (regRand (report_now w) (report_random w)) 0)))"
proof -
  have r: "queryFaissIndex (globalIndex w) (loadIndex w) (searchIndex w) q
             = \<lparr>joined = [], count = 0\<rparr>"
    using assms by (auto simp: queryFaissIndex_def)
  then have g: "generateECMAssistant w q = generate_from w q \<lparr>joined = [], count = 0\<rparr>"
    by (simp add: generateECMAssistant_def)
  have "\<exists>fair. generateECMAssistant w q
                 = Inr (trim (strip_appendix (trim content)) @ [10, 10]
                     @ report_footer fair (regRand (report_now w) (report_random w)) 0)"
    if "chat w [(User, prompt_for q [])] = Inr content"
    using generate_from_answer [of w q "\<lparr>joined = [], count = 0\<rparr>" content] that
    unfolding g by simp
  with r g show ?thesis by blast
qed

theorem retrieval_failure_empty_context_witness:
  "queryFaissIndex (globalIndex sample_world) (loadIndex sample_world) failing_search
       (str ''What is required?'')
     = \<lparr>joined = [], count = 0\<rparr>
   \<and> generateECMAssistant (sample_world\<lparr>searchIndex := failing_search\<rparr>)
       (str ''What is required?'')
     = Inr (str ''1. Query'' @ [10, 10]
         @ footer_before_fairness @ str ''No bias detected'' @ [10]
         @ str ''Reg. No. AIVS/UK/251029-5500/0'' @ footer_after_reg)"
proof -
  let ?w = "sample_world\<lparr>searchIndex := failing_search\<rparr>"
  have a: "(globalIndex ?w = None \<and> loadIndex ?w 10000 = Inl (Error (str ''index not readable'')))
     \<or> (\<exists>index. (globalIndex ?w = Some index
                    \<or> (globalIndex ?w = None \<and> loadIndex ?w 10000 = Inr index))
                 \<and> searchIndex ?w (str ''What is required?'') index
                     = Inl (Error (str ''index not readable'')))"
    by (simp add: sample_world_def failing_search_def)
  have c: "chat ?w = sample_chat" "report_now ?w = sample_date" "report_random ?w = 1 / 2"
    by (simp_all add: sample_world_def)
  have t: "trim (strip_appendix (trim (str '' 1. Query ''))) = str ''1. Query''"
    "trim (str ''No bias detected'') = str ''No bias detected''"
    by (simp_all add: appendix_here_def lower_def is_upper_def text_eval)
  have f: "report_footer (str ''No bias detected'') (regRand sample_date (1 / 2)) 0
     = footer_before_fairness @ str ''No bias detected'' @ [10]
       @ str ''Reg. No. AIVS/UK/251029-5500/0'' @ footer_after_reg"
    by (simp add: report_footer_def reg_line_def regRand_def sample_dateSeed sample_randomPart
        String_int_def String_nat.simps)
       (simp add: str_def)
  have g: "generate_from ?w (str ''What is required?'') \<lparr>joined = [], count = 0\<rparr>
     = Inr (str ''1. Query'' @ [10, 10]
         @ footer_before_fairness @ str ''No bias detected'' @ [10]
         @ str ''Reg. No. AIVS/UK/251029-5500/0'' @ footer_after_reg)"
    unfolding generate_from_def Let_def c
    by (simp add: sample_chat_def t f)
  from retrieval_failure_empty_context [OF a] g show ?thesis
    by simp
qed
end
